theory Spec2Isabelle
  imports Complex_Main "HOL-Library.Word" "HOL-Library.FSet" "HOL-Library.Monad_Syntax"
begin

unbundle bit_operations_syntax

section \<open>Values of the MIDI layer (src/src/midi.cpp)\<close>

text \<open>
  A C++ \<open>int\<close> is a 32-bit word read in two's complement with \<open>sint\<close>; \<open>uint8_t\<close> is an
  8-bit word. Object addresses are natural numbers; a pointer that may be \<open>NULL\<close> is an
  \<open>option\<close>. A function of the model returns \<open>None\<close> where the C++ has undefined
  behaviour (a null or dangling dereference, an index into an empty vector), and a
  failed \<open>assert\<close>.
\<close>

type_synonym cint = "32 word"
type_synonym ptr = nat

text \<open>\<open>rack::Exception\<close>, with the text that \<open>what()\<close> returns.\<close>

datatype exception = Exception (what: string)

text \<open>
  Modelled from the spec: \<open>midi::Message\<close> is declared in midi.hpp, which is not among
  the sources. The spec gives it the fields \<open>statusAndChannel\<close> (status nibble above the
  channel nibble), \<open>data1\<close>, \<open>data2\<close> and \<open>timestamp\<close> (0 for "unset"). The timestamp is a
  \<open>double\<close> in the source, where it is only compared with \<open>0.0\<close> and assigned; it is a
  real number here (no NaN, no signed zero).
\<close>

record message =
  statusAndChannel :: "8 word"
  data1 :: "8 word"
  data2 :: "8 word"
  timestamp :: real

text \<open>Modelled from the spec: \<open>Message::getStatus\<close> (midi.hpp), the status nibble.\<close>

definition getStatus :: "message \<Rightarrow> 8 word" where
  "getStatus m = drop_bit 4 (statusAndChannel m)"

text \<open>Modelled from the spec: \<open>Message::getChannel\<close> (midi.hpp), the channel nibble.\<close>

definition getChannel :: "message \<Rightarrow> 8 word" where
  "getChannel m = statusAndChannel m AND 0x0f"

text \<open>
  Modelled from the spec: \<open>Message::setChannel(uint8_t)\<close> (midi.hpp) overwrites the
  channel nibble and keeps the status nibble.
\<close>

definition setChannel :: "8 word \<Rightarrow> message \<Rightarrow> message" where
  "setChannel c m = m\<lparr>statusAndChannel := (statusAndChannel m AND 0xf0) OR (c AND 0x0f)\<rparr>"

section \<open>Devices\<close>

text \<open>
  Modelled from the spec: the device classes are declared in midi.hpp. A device holds
  the \<open>std::set\<close> \<open>subscribed\<close> of port pointers that midi.cpp inserts into and erases
  from (\<open>inSubscribed\<close>, \<open>outSubscribed\<close>), and its current name, which \<open>Device::getName\<close> returns (\<open>inName\<close>, \<open>outName\<close>). An
  output device also has the messages handed to it so far (\<open>received\<close>) and the exception
  its transport raises on a send, if any (\<open>sendError\<close>).
\<close>

record inputDevice =
  inName :: string
  inSubscribed :: "ptr fset"

record outputDevice =
  outName :: string
  outSubscribed :: "ptr fset"
  received :: "message list"
  sendError :: "exception option"

definition InputDevice_subscribe :: "ptr \<Rightarrow> inputDevice \<Rightarrow> inputDevice" where
  "InputDevice_subscribe input d = d\<lparr>inSubscribed := finsert input (inSubscribed d)\<rparr>"

definition InputDevice_unsubscribe :: "ptr \<Rightarrow> inputDevice \<Rightarrow> inputDevice" where
  "InputDevice_unsubscribe input d =
     (if input |\<in>| inSubscribed d then d\<lparr>inSubscribed := inSubscribed d |-| {|input|}\<rparr> else d)"

definition OutputDevice_subscribe :: "ptr \<Rightarrow> outputDevice \<Rightarrow> outputDevice" where
  "OutputDevice_subscribe output d = d\<lparr>outSubscribed := finsert output (outSubscribed d)\<rparr>"

definition OutputDevice_unsubscribe :: "ptr \<Rightarrow> outputDevice \<Rightarrow> outputDevice" where
  "OutputDevice_unsubscribe output d =
     (if output |\<in>| outSubscribed d then d\<lparr>outSubscribed := outSubscribed d |-| {|output|}\<rparr> else d)"

text \<open>
  Modelled from the spec: \<open>OutputDevice::sendMessage\<close> is implemented by the external
  driver. The device is handed the message and then raises its \<open>sendError\<close>, if it has one.
\<close>

definition OutputDevice_sendMessage ::
  "message \<Rightarrow> outputDevice \<Rightarrow> exception option \<times> outputDevice" where
  "OutputDevice_sendMessage msg d = (sendError d, d\<lparr>received := received d @ [msg]\<rparr>)"

section \<open>Drivers and the registry\<close>

text \<open>
  Modelled from the spec: the \<open>Driver\<close> interface is declared in midi.hpp and
  implemented outside this file. A driver answers the enumeration and the name lookup
  with a result or an exception, and owns one device object per device id it can open
  (\<open>Inl\<close>: opening that id raises). Following section 4.2 of the spec, subscribing
  registers the port in that device's subscriber set and unsubscribing removes it.
\<close>

record driver =
  getInputDeviceIds :: "exception + cint list"
  getInputDeviceName :: "cint \<Rightarrow> exception + string"
  inputDevices :: "cint \<Rightarrow> exception + inputDevice"
  getOutputDeviceIds :: "exception + cint list"
  getOutputDeviceName :: "cint \<Rightarrow> exception + string"
  outputDevices :: "cint \<Rightarrow> exception + outputDevice"

text \<open>
  Modelled from the spec: \<open>Driver::subscribeInput\<close>, \<open>unsubscribeInput\<close>, \<open>subscribeOutput\<close>
  and \<open>unsubscribeOutput\<close> (section 4.2): they raise when the device cannot be opened, and
  otherwise call \<open>subscribe\<close> or \<open>unsubscribe\<close> of the device with that id.
\<close>

definition subscribeInput :: "cint \<Rightarrow> ptr \<Rightarrow> driver \<Rightarrow> exception + driver" where
  "subscribeInput dev input drv =
     (case inputDevices drv dev of
        Inl e \<Rightarrow> Inl e
      | Inr d \<Rightarrow> Inr (drv\<lparr>inputDevices := (inputDevices drv)(dev := Inr (InputDevice_subscribe input d))\<rparr>))"

definition unsubscribeInput :: "cint \<Rightarrow> ptr \<Rightarrow> driver \<Rightarrow> exception + driver" where
  "unsubscribeInput dev input drv =
     (case inputDevices drv dev of
        Inl e \<Rightarrow> Inl e
      | Inr d \<Rightarrow> Inr (drv\<lparr>inputDevices := (inputDevices drv)(dev := Inr (InputDevice_unsubscribe input d))\<rparr>))"

definition subscribeOutput :: "cint \<Rightarrow> ptr \<Rightarrow> driver \<Rightarrow> exception + driver" where
  "subscribeOutput dev output drv =
     (case outputDevices drv dev of
        Inl e \<Rightarrow> Inl e
      | Inr d \<Rightarrow> Inr (drv\<lparr>outputDevices := (outputDevices drv)(dev := Inr (OutputDevice_subscribe output d))\<rparr>))"

definition unsubscribeOutput :: "cint \<Rightarrow> ptr \<Rightarrow> driver \<Rightarrow> exception + driver" where
  "unsubscribeOutput dev output drv =
     (case outputDevices drv dev of
        Inl e \<Rightarrow> Inl e
      | Inr d \<Rightarrow> Inr (drv\<lparr>outputDevices := (outputDevices drv)(dev := Inr (OutputDevice_unsubscribe output d))\<rparr>))"

text \<open>
  The process state the ports work on: the static vector \<open>drivers\<close> of (id, pointer)
  pairs, the driver objects the pointers refer to, and the lines written by \<open>WARN\<close>.
\<close>

record world =
  drivers :: "(cint \<times> ptr) list"
  driverObjs :: "ptr \<rightharpoonup> driver"
  warnings :: "string list"

definition WARN :: "string \<Rightarrow> world \<Rightarrow> world" where
  "WARN line w = w\<lparr>warnings := warnings w @ [line]\<rparr>"

text \<open>\<open>addDriver\<close>: the assertion fails on a null driver; otherwise \<open>push_back\<close>.\<close>

definition addDriver :: "cint \<Rightarrow> ptr option \<Rightarrow> world \<Rightarrow> world option" where
  "addDriver driverId' drv w =
     (case drv of
        None \<Rightarrow> None
      | Some d \<Rightarrow> Some (w\<lparr>drivers := drivers w @ [(driverId', d)]\<rparr>))"

definition getDriverIds :: "world \<Rightarrow> cint list" where
  "getDriverIds w = map fst (drivers w)"

text \<open>The search loop of \<open>midi::getDriver\<close> over the vector; \<open>None\<close> is \<open>NULL\<close>.\<close>

fun findDriver :: "(cint \<times> ptr) list \<Rightarrow> cint \<Rightarrow> ptr option" where
  "findDriver [] driverId' = None"
| "findDriver (pair # rest) driverId' =
     (if fst pair = driverId' then Some (snd pair) else findDriver rest driverId')"

definition getDriver :: "world \<Rightarrow> cint \<Rightarrow> ptr option" where
  "getDriver w driverId' = findDriver (drivers w) driverId'"

section \<open>The input queue\<close>

text \<open>
  Modelled from the spec: the fields of \<open>InputQueue\<close> are declared in midi.hpp: the
  FIFO \<open>queue\<close> (front first) and its configured maximum \<open>queueMaxSize\<close>, an \<open>int\<close>.
  The cast \<open>(int) queue.size()\<close> keeps the low 32 bits of the size.
\<close>

record inputQueue =
  queue :: "message list"
  queueMaxSize :: cint

definition InputQueue_onMessage :: "message \<Rightarrow> inputQueue \<Rightarrow> inputQueue" where
  "InputQueue_onMessage msg q =
     (if sint (queueMaxSize q) \<le> sint (word_of_nat (length (queue q)) :: cint) then q
      else q\<lparr>queue := queue q @ [msg]\<rparr>)"

fun onMessages :: "message list \<Rightarrow> inputQueue \<Rightarrow> inputQueue" where
  "onMessages [] q = q"
| "onMessages (m # ms) q = onMessages ms (InputQueue_onMessage m q)"

section \<open>Fan-out of an input device\<close>

text \<open>
  What \<open>InputDevice::onMessage\<close> does to its subscribers, in the order of the loop:
  \<open>contextSet\<close> with a port's context, and the call of a port's (virtual) handler
  \<open>Input::onMessage\<close> with a message.
\<close>

datatype event = ContextSet ptr | OnMessage ptr message

section \<open>Ports\<close>

text \<open>
  \<open>Input\<close> and \<open>Output\<close> derive from \<open>Port\<close>; \<open>kind\<close> is the dynamic type that selects the
  overrides of the virtual methods. A device pointer names the device by its owner and
  its id in the owner's table. The typed copies \<open>inputDevice\<close> and \<open>outputDevice\<close> of
  \<open>device\<close> are assigned together with it everywhere, so one field stands for both.
  The field \<open>context\<close> of the source is \<open>portContext\<close> here.
\<close>

datatype port_kind = Input | Output

record port =
  kind :: port_kind
  portContext :: ptr
  driver :: "ptr option"
  driverId :: cint
  device :: "(ptr \<times> cint) option"
  deviceId :: cint
  channel :: cint

text \<open>The loop body of \<open>InputDevice::onMessage\<close>, over the subscribers in iteration order.\<close>

fun fanOut :: "(ptr \<rightharpoonup> port) \<Rightarrow> message \<Rightarrow> ptr list \<Rightarrow> event list option" where
  "fanOut ports msg [] = Some []"
| "fanOut ports msg (i # rest) =
     (case ports i of
        None \<Rightarrow> None
      | Some input \<Rightarrow>
          (case fanOut ports msg rest of
             None \<Rightarrow> None
           | Some es \<Rightarrow>
               Some (ContextSet (portContext input) #
                 (if getStatus msg \<noteq> 0xf \<and> 0 \<le> sint (channel input)
                      \<and> ucast (getChannel msg) \<noteq> channel input
                  then es
                  else OnMessage i msg # es))))"

text \<open>
  \<open>InputDevice::onMessage\<close>. The reading \<open>now\<close> of \<open>system::getTime()\<close> (system.hpp, not
  among the sources) and the port objects are parameters. A \<open>std::set\<close> of pointers is
  iterated in ascending order.
\<close>

definition InputDevice_onMessage ::
  "real \<Rightarrow> (ptr \<rightharpoonup> port) \<Rightarrow> inputDevice \<Rightarrow> message \<Rightarrow> event list option" where
  "InputDevice_onMessage now ports d message =
     (let msg = message;
          msg = (if timestamp msg = 0 then msg\<lparr>timestamp := now\<rparr> else msg)
      in fanOut ports msg (sorted_list_of_fset (inSubscribed d)))"

text \<open>Whether the handler of port \<open>i\<close> is called in a trace.\<close>

fun invoked :: "ptr \<Rightarrow> event list \<Rightarrow> bool" where
  "invoked i [] = False"
| "invoked i (ContextSet c # es) = invoked i es"
| "invoked i (OnMessage j m # es) = (j = i \<or> invoked i es)"

text \<open>
  \<open>Input::setDeviceId\<close> and \<open>Output::setDeviceId\<close> are the same text up to the driver
  calls and the word in the warning; \<open>destroyDevice\<close> is the block under
  "Destroy device" and \<open>createDevice\<close> the block under "Create device".
\<close>

definition destroyDevice ::
  "(cint \<Rightarrow> ptr \<Rightarrow> driver \<Rightarrow> exception + driver) \<Rightarrow> string \<Rightarrow> ptr \<Rightarrow> port \<times> world \<Rightarrow> (port \<times> world) option" where
  "destroyDevice unsubscribe dir this s =
     (case s of (p, w) \<Rightarrow>
        do {
          w \<leftarrow> (case driver p of
                 Some dp \<Rightarrow>
                   if 0 \<le> sint (deviceId p) then
                     (case driverObjs w dp of
                        None \<Rightarrow> None
                      | Some drv \<Rightarrow>
                          Some (case unsubscribe (deviceId p) this drv of
                                  Inr drv' \<Rightarrow> w\<lparr>driverObjs := (driverObjs w)(dp \<mapsto> drv')\<rparr>
                                | Inl e \<Rightarrow>
                                    WARN (''MIDI port could not unsubscribe from '' @ dir @ '': '' @ what e) w))
                   else Some w
               | None \<Rightarrow> Some w);
          Some (p\<lparr>device := None, deviceId := - 1\<rparr>, w)
        })"

definition createDevice ::
  "(cint \<Rightarrow> ptr \<Rightarrow> driver \<Rightarrow> exception + driver) \<Rightarrow> string \<Rightarrow> ptr \<Rightarrow> cint \<Rightarrow> port \<times> world \<Rightarrow> (port \<times> world) option" where
  "createDevice subscribe dir this deviceId' s =
     (case s of (p, w) \<Rightarrow>
        (case driver p of
           Some dp \<Rightarrow>
             if 0 \<le> sint deviceId' then
               (case driverObjs w dp of
                  None \<Rightarrow> None
                | Some drv \<Rightarrow>
                    Some (case subscribe deviceId' this drv of
                            Inr drv' \<Rightarrow>
                              (p\<lparr>device := Some (dp, deviceId'), deviceId := deviceId'\<rparr>,
                               w\<lparr>driverObjs := (driverObjs w)(dp \<mapsto> drv')\<rparr>)
                          | Inl e \<Rightarrow>
                              (p, WARN (''MIDI port could not subscribe to '' @ dir @ '': '' @ what e) w)))
             else Some (p, w)
         | None \<Rightarrow> Some (p, w)))"

definition Input_setDeviceId :: "ptr \<Rightarrow> cint \<Rightarrow> port \<times> world \<Rightarrow> (port \<times> world) option" where
  "Input_setDeviceId this deviceId' s =
     do {
       s \<leftarrow> destroyDevice unsubscribeInput ''input'' this s;
       createDevice subscribeInput ''input'' this deviceId' s
     }"

definition Output_setDeviceId :: "ptr \<Rightarrow> cint \<Rightarrow> port \<times> world \<Rightarrow> (port \<times> world) option" where
  "Output_setDeviceId this deviceId' s =
     do {
       s \<leftarrow> destroyDevice unsubscribeOutput ''output'' this s;
       createDevice subscribeOutput ''output'' this deviceId' s
     }"

text \<open>The virtual call \<open>setDeviceId\<close> on a \<open>Port\<close>.\<close>

definition Port_setDeviceId :: "ptr \<Rightarrow> cint \<Rightarrow> port \<times> world \<Rightarrow> (port \<times> world) option" where
  "Port_setDeviceId this deviceId' s =
     (case kind (fst s) of
        Input \<Rightarrow> Input_setDeviceId this deviceId' s
      | Output \<Rightarrow> Output_setDeviceId this deviceId' s)"

definition Input_getDeviceIds :: "port \<times> world \<Rightarrow> (cint list \<times> world) option" where
  "Input_getDeviceIds s =
     (case s of (p, w) \<Rightarrow>
        (case driver p of
           None \<Rightarrow> Some ([], w)
         | Some dp \<Rightarrow>
             (case driverObjs w dp of
                None \<Rightarrow> None
              | Some drv \<Rightarrow>
                  Some (case getInputDeviceIds drv of
                          Inr ids \<Rightarrow> (ids, w)
                        | Inl e \<Rightarrow> ([], WARN (''MIDI port could not get input device IDs: '' @ what e) w)))))"

definition Output_getDeviceIds :: "port \<times> world \<Rightarrow> (cint list \<times> world) option" where
  "Output_getDeviceIds s =
     (case s of (p, w) \<Rightarrow>
        (case driver p of
           None \<Rightarrow> Some ([], w)
         | Some dp \<Rightarrow>
             (case driverObjs w dp of
                None \<Rightarrow> None
              | Some drv \<Rightarrow>
                  Some (case getOutputDeviceIds drv of
                          Inr ids \<Rightarrow> (ids, w)
                        | Inl e \<Rightarrow> ([], WARN (''MIDI port could not get output device IDs: '' @ what e) w)))))"

definition Port_getDeviceIds :: "port \<times> world \<Rightarrow> (cint list \<times> world) option" where
  "Port_getDeviceIds s =
     (case kind (fst s) of Input \<Rightarrow> Input_getDeviceIds s | Output \<Rightarrow> Output_getDeviceIds s)"

definition Input_getDeviceName :: "cint \<Rightarrow> port \<times> world \<Rightarrow> (string \<times> world) option" where
  "Input_getDeviceName deviceId' s =
     (case s of (p, w) \<Rightarrow>
        (case driver p of
           None \<Rightarrow> Some ([], w)
         | Some dp \<Rightarrow>
             (case driverObjs w dp of
                None \<Rightarrow> None
              | Some drv \<Rightarrow>
                  Some (case getInputDeviceName drv deviceId' of
                          Inr n \<Rightarrow> (n, w)
                        | Inl e \<Rightarrow> ([], WARN (''MIDI port could not get input device name: '' @ what e) w)))))"

text \<open>
  \<open>Output::getDeviceName\<close> tests \<open>if (driver)\<close>: with a driver it returns the empty
  string at once, and without one it calls through the null pointer.
\<close>

definition Output_getDeviceName :: "cint \<Rightarrow> port \<times> world \<Rightarrow> (string \<times> world) option" where
  "Output_getDeviceName deviceId' s =
     (case s of (p, w) \<Rightarrow>
        (case driver p of
           Some dp \<Rightarrow> Some ([], w)
         | None \<Rightarrow> None))"

definition Port_getDeviceName :: "cint \<Rightarrow> port \<times> world \<Rightarrow> (string \<times> world) option" where
  "Port_getDeviceName deviceId' s =
     (case kind (fst s) of
        Input \<Rightarrow> Input_getDeviceName deviceId' s
      | Output \<Rightarrow> Output_getDeviceName deviceId' s)"

text \<open>\<open>Port::setDriverId\<close>; \<open>drivers[0]\<close> on an empty vector is undefined.\<close>

definition Port_setDriverId :: "ptr \<Rightarrow> cint \<Rightarrow> port \<times> world \<Rightarrow> (port \<times> world) option" where
  "Port_setDriverId this driverId' s =
     do {
       (p, w) \<leftarrow> Port_setDeviceId this (- 1) s;
       let p = p\<lparr>driver := None\<rparr>;
       let p = p\<lparr>driverId := - 1\<rparr>;
       let p = p\<lparr>driver := getDriver w driverId'\<rparr>;
       if driver p \<noteq> None then Some (p\<lparr>driverId := driverId'\<rparr>, w)
       else (case drivers w of
               [] \<Rightarrow> None
             | first # rest \<Rightarrow> Some (p\<lparr>driver := Some (snd first), driverId := fst first\<rparr>, w))
     }"

definition Port_setChannel :: "cint \<Rightarrow> port \<Rightarrow> port" where
  "Port_setChannel channel' p = p\<lparr>channel := channel'\<rparr>"

text \<open>
  \<open>Output::sendMessage\<close>; the channel argument of \<open>setChannel\<close> is converted from \<open>int\<close>
  to \<open>uint8_t\<close>. The exception of the device is swallowed.
\<close>

definition Output_sendMessage :: "message \<Rightarrow> port \<times> world \<Rightarrow> world option" where
  "Output_sendMessage message s =
     (case s of (p, w) \<Rightarrow>
        (case device p of
           None \<Rightarrow> Some w
         | Some (dp, dev) \<Rightarrow>
             (let msg = message;
                  msg = (if getStatus msg \<noteq> 0xf \<and> 0 \<le> sint (channel p)
                         then setChannel (ucast (channel p)) msg else msg)
              in case driverObjs w dp of
                   None \<Rightarrow> None
                 | Some drv \<Rightarrow>
                     (case outputDevices drv dev of
                        Inl e \<Rightarrow> None
                      | Inr d \<Rightarrow>
                          Some (w\<lparr>driverObjs := (driverObjs w)(dp \<mapsto>
                            drv\<lparr>outputDevices := (outputDevices drv)
                              (dev := Inr (snd (OutputDevice_sendMessage msg d)))\<rparr>)\<rparr>)))))"

section \<open>Persistence\<close>

text \<open>
  The Jansson values the two functions handle: the root is an object whose members are
  looked up by key (\<open>json_object_get\<close> returns \<open>NULL\<close> for a missing key).
  \<open>json_integer_value\<close> is 0 on a value that is not an integer, \<open>json_string_value\<close> is
  \<open>NULL\<close> on one that is not a string, and building a \<open>std::string\<close> from \<open>NULL\<close> is
  undefined. \<open>json_int_t\<close> is 64 bits wide: an \<open>int\<close> is sign-extended into it and
  truncated out of it. A string value holds bytes.
\<close>

datatype json_t = JInteger "64 word" | JString string | JOther

type_synonym json_object = "string \<rightharpoonup> json_t"

definition json_integer_value :: "json_t \<Rightarrow> 64 word" where
  "json_integer_value j = (case j of JInteger n \<Rightarrow> n | _ \<Rightarrow> 0)"

definition json_string_value :: "json_t \<Rightarrow> string option" where
  "json_string_value j = (case j of JString s \<Rightarrow> Some s | _ \<Rightarrow> None)"

text \<open>
  What a \<open>const char*\<close> reader sees of the bytes of a \<open>std::string\<close>: those before the
  first NUL. \<open>std::string::c_str()\<close> hands the bytes to such a reader, and so does the
  construction of a \<open>std::string\<close> from the pointer that \<open>json_string_value\<close> returns.
\<close>

definition c_str :: "string \<Rightarrow> string" where
  "c_str s = takeWhile (\<lambda>c. c \<noteq> CHR 0x00) s"

text \<open>
  The constructors of values. \<open>json_string\<close> returns \<open>NULL\<close> (here \<open>None\<close>) for bytes
  that fail the library's UTF-8 check; the check is the parameter \<open>utf8\<close>.
  \<open>json_object_set_new\<close> with a \<open>NULL\<close> value fails and leaves the object as it is.
\<close>

definition json_integer :: "64 word \<Rightarrow> json_t option" where
  "json_integer v = Some (JInteger v)"

definition json_string :: "(string \<Rightarrow> bool) \<Rightarrow> string \<Rightarrow> json_t option" where
  "json_string utf8 cs = (if utf8 cs then Some (JString cs) else None)"

definition json_object_set_new :: "json_object \<Rightarrow> string \<Rightarrow> json_t option \<Rightarrow> json_object" where
  "json_object_set_new obj key v = (case v of None \<Rightarrow> obj | Some j \<Rightarrow> obj(key \<mapsto> j))"

text \<open>Modelled from the spec: \<open>device->getName()\<close>, the current name of the bound device.\<close>

definition Device_getName :: "port_kind \<Rightarrow> ptr \<times> cint \<Rightarrow> world \<Rightarrow> string option" where
  "Device_getName k d w =
     (case driverObjs w (fst d) of
        None \<Rightarrow> None
      | Some drv \<Rightarrow>
          (case k of
             Input \<Rightarrow> (case inputDevices drv (snd d) of Inr dev \<Rightarrow> Some (inName dev) | Inl e \<Rightarrow> None)
           | Output \<Rightarrow> (case outputDevices drv (snd d) of Inr dev \<Rightarrow> Some (outName dev) | Inl e \<Rightarrow> None)))"

definition Port_toJson :: "(string \<Rightarrow> bool) \<Rightarrow> port \<times> world \<Rightarrow> json_object option" where
  "Port_toJson utf8 s =
     (case s of (p, w) \<Rightarrow>
        do {
          let rootJ = Map.empty;
          let rootJ = json_object_set_new rootJ ''driver'' (json_integer (scast (driverId p)));
          rootJ \<leftarrow> (case device p of
                     None \<Rightarrow> Some rootJ
                   | Some d \<Rightarrow>
                       do {
                         deviceName \<leftarrow> Device_getName (kind p) d w;
                         Some (if deviceName \<noteq> []
                               then json_object_set_new rootJ ''deviceName''
                                      (json_string utf8 (c_str deviceName))
                               else rootJ)
                       });
          Some (json_object_set_new rootJ ''channel'' (json_integer (scast (channel p))))
        })"

text \<open>The search loop of \<open>Port::fromJson\<close> over the enumerated device ids.\<close>

fun bindByName :: "ptr \<Rightarrow> string \<Rightarrow> cint list \<Rightarrow> port \<times> world \<Rightarrow> (port \<times> world) option" where
  "bindByName this deviceName [] s = Some s"
| "bindByName this deviceName (deviceId' # rest) s =
     (case Port_getDeviceName deviceId' s of
        None \<Rightarrow> None
      | Some (n, w) \<Rightarrow>
          if n = deviceName then Port_setDeviceId this deviceId' (fst s, w)
          else bindByName this deviceName rest (fst s, w))"

definition Port_fromJson :: "ptr \<Rightarrow> json_object \<Rightarrow> port \<times> world \<Rightarrow> (port \<times> world) option" where
  "Port_fromJson this rootJ s =
     do {
       s \<leftarrow> Port_setDriverId this (- 1) s;
       s \<leftarrow> (case rootJ ''driver'' of
               Some driverJ \<Rightarrow> Port_setDriverId this (ucast (json_integer_value driverJ)) s
             | None \<Rightarrow> Some s);
       s \<leftarrow> (if driver (fst s) \<noteq> None then
               (case rootJ ''deviceName'' of
                  Some deviceNameJ \<Rightarrow>
                    do {
                      chars \<leftarrow> json_string_value deviceNameJ;
                      let deviceName = c_str chars;
                      (ids, w) \<leftarrow> Port_getDeviceIds s;
                      bindByName this deviceName ids (fst s, w)
                    }
                | None \<Rightarrow> Some s)
             else Some s);
       Some (case rootJ ''channel'' of
               Some channelJ \<Rightarrow> ((fst s)\<lparr>channel := ucast (json_integer_value channelJ)\<rparr>, snd s)
             | None \<Rightarrow> s)
     }"

text \<open>
  Saving the port of the state \<open>saved\<close> and loading the record into the port of the
  state \<open>s\<close>, which lives at the address \<open>this\<close>: the same port later on, or another one,
  in another session.
\<close>

definition roundTrip ::
  "(string \<Rightarrow> bool) \<Rightarrow> ptr \<Rightarrow> port \<times> world \<Rightarrow> port \<times> world \<Rightarrow> (port \<times> world) option" where
  "roundTrip utf8 this saved s = do { rootJ \<leftarrow> Port_toJson utf8 saved; Port_fromJson this rootJ s }"

section \<open>Observations and example states\<close>

text \<open>The messages an output device has been handed so far, read through a device pointer.\<close>

definition receivedBy :: "ptr \<times> cint \<Rightarrow> world \<Rightarrow> message list option" where
  "receivedBy d w =
     (case driverObjs w (fst d) of
        None \<Rightarrow> None
      | Some drv \<Rightarrow> (case outputDevices drv (snd d) of Inr dev \<Rightarrow> Some (received dev) | Inl e \<Rightarrow> None))"

text \<open>A note-on and a note-off on channel 2, and a system message (timing clock).\<close>

definition msgA :: message where
  "msgA = \<lparr>statusAndChannel = 0x92, data1 = 60, data2 = 100, timestamp = 0\<rparr>"

definition msgB :: message where
  "msgB = \<lparr>statusAndChannel = 0x82, data1 = 60, data2 = 0, timestamp = 3\<rparr>"

definition msgC :: message where
  "msgC = \<lparr>statusAndChannel = 0xf8, data1 = 0, data2 = 0, timestamp = 0\<rparr>"

text \<open>
  A driver with three input devices, two of them under the same name, and one output
  device; a registry with two such drivers, under the ids 1 and 2; an input port and
  an output port.
\<close>

definition exDriver :: driver where
  "exDriver =
     \<lparr>getInputDeviceIds = Inr [0, 1, 2],
      getInputDeviceName = (\<lambda>i. if i = 0 then Inr ''Keys'' else if i = 1 then Inr ''Pad''
                                 else if i = 2 then Inr ''Pad'' else Inl (Exception ''no device'')),
      inputDevices = (\<lambda>i. if i = 0 then Inr \<lparr>inName = ''Keys'', inSubscribed = {||}\<rparr>
                           else if i = 1 then Inr \<lparr>inName = ''Pad'', inSubscribed = {||}\<rparr>
                           else if i = 2 then Inr \<lparr>inName = ''Pad'', inSubscribed = {||}\<rparr>
                           else Inl (Exception ''no device'')),
      getOutputDeviceIds = Inr [0],
      getOutputDeviceName = (\<lambda>i. if i = 0 then Inr ''Synth'' else Inl (Exception ''no device'')),
      outputDevices = (\<lambda>i. if i = 0 then Inr \<lparr>outName = ''Synth'', outSubscribed = {||},
                                                received = [], sendError = None\<rparr>
                            else Inl (Exception ''no device''))\<rparr>"

definition exWorld :: world where
  "exWorld = \<lparr>drivers = [(1, 100), (2, 200)],
               driverObjs = [100 \<mapsto> exDriver, 200 \<mapsto> exDriver], warnings = []\<rparr>"

definition exInput :: port where
  "exInput = \<lparr>kind = Input, portContext = 1, driver = Some 100, driverId = 1,
              device = None, deviceId = - 1, channel = - 1\<rparr>"

definition exOutput :: port where
  "exOutput = \<lparr>kind = Output, portContext = 1, driver = Some 100, driverId = 1,
               device = Some (100, 0), deviceId = 0, channel = 5\<rparr>"

text \<open>Three input ports at the addresses 5, 6 and 7, with the filters 2, "all" and 3.\<close>

definition exPorts :: "ptr \<rightharpoonup> port" where
  "exPorts = [5 \<mapsto> exInput\<lparr>channel := 2\<rparr>, 6 \<mapsto> exInput, 7 \<mapsto> exInput\<lparr>channel := 3\<rparr>]"

definition exDevice :: inputDevice where
  "exDevice = \<lparr>inName = ''Keys'', inSubscribed = {|5, 6, 7|}\<rparr>"

section \<open>Well-formed states and what the port operations leave alone\<close>

text \<open>The driver pointer of a port, when not null, refers to a live driver object.\<close>

definition driverAlive :: "port \<Rightarrow> world \<Rightarrow> bool" where
  "driverAlive p w = (case driver p of None \<Rightarrow> True | Some dp \<Rightarrow> driverObjs w dp \<noteq> None)"

text \<open>Every pointer in the registry refers to a live driver object.\<close>

definition registryAlive :: "world \<Rightarrow> bool" where
  "registryAlive w = list_all (\<lambda>pr. driverObjs w (snd pr) \<noteq> None) (drivers w)"

text \<open>
  Whether the port at \<open>this\<close>, of kind \<open>k\<close>, is in the subscriber set of device \<open>dev\<close> (of
  the port's direction) of the driver at \<open>dp\<close>.
\<close>

definition isSubscribed :: "port_kind \<Rightarrow> ptr \<Rightarrow> world \<Rightarrow> ptr \<Rightarrow> cint \<Rightarrow> bool" where
  "isSubscribed k this w dp dev =
     (case driverObjs w dp of
        None \<Rightarrow> False
      | Some drv \<Rightarrow>
          (case k of
             Input \<Rightarrow>
               (case inputDevices drv dev of Inl e \<Rightarrow> False | Inr d \<Rightarrow> this |\<in>| inSubscribed d)
           | Output \<Rightarrow>
               (case outputDevices drv dev of Inl e \<Rightarrow> False | Inr d \<Rightarrow> this |\<in>| outSubscribed d)))"

text \<open>Whether the driver can open device \<open>dev\<close> of the direction of a port of kind \<open>k\<close>.\<close>

definition deviceOpens :: "port_kind \<Rightarrow> driver \<Rightarrow> cint \<Rightarrow> bool" where
  "deviceOpens k drv dev =
     (case k of
        Input \<Rightarrow> (case inputDevices drv dev of Inl e \<Rightarrow> False | Inr d \<Rightarrow> True)
      | Output \<Rightarrow> (case outputDevices drv dev of Inl e \<Rightarrow> False | Inr d \<Rightarrow> True))"

text \<open>
  Two states of a device, a driver or the world that differ at most in subscriber sets
  (and, for the world, in the warnings written).
\<close>

definition sameInputDevice :: "exception + inputDevice \<Rightarrow> exception + inputDevice \<Rightarrow> bool" where
  "sameInputDevice a b =
     (case a of
        Inl e \<Rightarrow> b = Inl e
      | Inr x \<Rightarrow> (case b of Inl e \<Rightarrow> False | Inr y \<Rightarrow> inName y = inName x))"

definition sameOutputDevice :: "exception + outputDevice \<Rightarrow> exception + outputDevice \<Rightarrow> bool" where
  "sameOutputDevice a b =
     (case a of
        Inl e \<Rightarrow> b = Inl e
      | Inr x \<Rightarrow>
          (case b of
             Inl e \<Rightarrow> False
           | Inr y \<Rightarrow> outName y = outName x \<and> received y = received x \<and> sendError y = sendError x))"

definition sameDriver :: "driver \<Rightarrow> driver \<Rightarrow> bool" where
  "sameDriver a b \<longleftrightarrow>
     getInputDeviceIds b = getInputDeviceIds a \<and> getInputDeviceName b = getInputDeviceName a \<and>
     getOutputDeviceIds b = getOutputDeviceIds a \<and> getOutputDeviceName b = getOutputDeviceName a \<and>
     (\<forall>i. sameInputDevice (inputDevices a i) (inputDevices b i)) \<and>
     (\<forall>i. sameOutputDevice (outputDevices a i) (outputDevices b i))"

definition sameWorld :: "world \<Rightarrow> world \<Rightarrow> bool" where
  "sameWorld w w' \<longleftrightarrow>
     drivers w' = drivers w \<and> (\<forall>dp. rel_option sameDriver (driverObjs w dp) (driverObjs w' dp))"

text \<open>Two states of a port that agree on everything but the device binding.\<close>

definition samePort :: "port \<Rightarrow> port \<Rightarrow> bool" where
  "samePort p p' \<longleftrightarrow>
     kind p' = kind p \<and> portContext p' = portContext p \<and> driver p' = driver p \<and>
     driverId p' = driverId p \<and> channel p' = channel p"

text \<open>The device pointer of a port, when not null, refers to a device its owner has.\<close>

definition deviceAlive :: "port \<Rightarrow> world \<Rightarrow> bool" where
  "deviceAlive p w =
     (case device p of None \<Rightarrow> True | Some h \<Rightarrow> Device_getName (kind p) h w \<noteq> None)"

text \<open>
  The name \<open>toJson\<close> writes: the bytes before the first NUL of the bound device's name,
  unless the name is empty or these bytes fail the UTF-8 check.
\<close>

definition savedName :: "(string \<Rightarrow> bool) \<Rightarrow> port \<times> world \<Rightarrow> string option" where
  "savedName utf8 s =
     (case device (fst s) of
        None \<Rightarrow> None
      | Some h \<Rightarrow>
          (case Device_getName (kind (fst s)) h (snd s) of
             None \<Rightarrow> None
           | Some n \<Rightarrow> if n \<noteq> [] \<and> utf8 (c_str n) then Some (c_str n) else None))"

text \<open>The driver and the id that \<open>setDriverId(i)\<close> leaves in the port.\<close>

definition boundDriver :: "world \<Rightarrow> cint \<Rightarrow> ptr option" where
  "boundDriver w i = (case getDriver w i of Some d \<Rightarrow> Some d | None \<Rightarrow> Some (snd (drivers w ! 0)))"

definition boundDriverId :: "world \<Rightarrow> cint \<Rightarrow> cint" where
  "boundDriverId w i = (case getDriver w i of Some d \<Rightarrow> i | None \<Rightarrow> fst (drivers w ! 0))"

text \<open>
  The input port at address 9 bound to device 2 of the first driver, and to device 0;
  in either world the device's subscriber set holds the port.
\<close>

definition exDriverWith :: "cint \<Rightarrow> string \<Rightarrow> driver" where
  "exDriverWith dev name =
     exDriver\<lparr>inputDevices := (inputDevices exDriver)(dev := Inr \<lparr>inName = name, inSubscribed = {|9|}\<rparr>)\<rparr>"

definition exWorldWith :: "cint \<Rightarrow> string \<Rightarrow> world" where
  "exWorldWith dev name = exWorld\<lparr>driverObjs := (driverObjs exWorld)(100 \<mapsto> exDriverWith dev name)\<rparr>"

definition exBound :: "cint \<Rightarrow> port" where
  "exBound dev = exInput\<lparr>device := Some (100, dev), deviceId := dev, channel := 3\<rparr>"

text \<open>
  The first driver with a second output device, and a world where output device 0 of
  that driver has the port at address 9 in its subscriber set.
\<close>

definition exOutDriver :: driver where
  "exOutDriver =
     exDriver\<lparr>getOutputDeviceIds := Inr [0, 1],
              outputDevices := (outputDevices exDriver)
                (0 := Inr \<lparr>outName = ''Synth'', outSubscribed = {|9|}, received = [], sendError = None\<rparr>,
                 1 := Inr \<lparr>outName = ''Drum'', outSubscribed = {||}, received = [], sendError = None\<rparr>)\<rparr>"

definition exOutWorld :: world where
  "exOutWorld = exWorld\<lparr>driverObjs := (driverObjs exWorld)(100 \<mapsto> exOutDriver)\<rparr>"

text \<open>
  For the examples: a check that accepts the strings of 7-bit characters, as every UTF-8
  check does, and a second input port, with another driver and another channel, that
  is not bound to a device.
\<close>

definition exUtf8 :: "string \<Rightarrow> bool" where
  "exUtf8 cs = list_all (\<lambda>c. \<not> digit7 c) cs"

definition exFresh :: port where
  "exFresh = exInput\<lparr>driver := Some 200, driverId := 2, channel := 0\<rparr>"

section \<open>Theorems\<close>
lemma findDriver_None: "findDriver ds i = None \<longleftrightarrow> i \<notin> fst ` set ds"
  by (induction ds) auto

lemma findDriver_Some:
  "findDriver ds i = Some d \<longleftrightarrow> (\<exists>pre post. ds = pre @ (i, d) # post \<and> i \<notin> fst ` set pre)"
proof (induction ds)
  case Nil
  then show ?case by simp
next
  case (Cons pr ds)
  show ?case
  proof (cases "fst pr = i")
    case True
    have "(\<exists>pre post. pr # ds = pre @ (i, d) # post \<and> i \<notin> fst ` set pre) \<longleftrightarrow> snd pr = d"
    proof
      assume "\<exists>pre post. pr # ds = pre @ (i, d) # post \<and> i \<notin> fst ` set pre"
      then obtain pre post where e: "pr # ds = pre @ (i, d) # post" and n: "i \<notin> fst ` set pre"
        by blast
      show "snd pr = d"
      proof (cases pre)
        case Nil
        with e show ?thesis by simp
      next
        case (Cons a list)
        with e n True show ?thesis by auto
      qed
    next
      assume "snd pr = d"
      with True have "pr # ds = [] @ (i, d) # ds" by (cases pr) simp
      then show "\<exists>pre post. pr # ds = pre @ (i, d) # post \<and> i \<notin> fst ` set pre"
        by (metis empty_iff image_empty list.set(1))
    qed
    with True show ?thesis by simp
  next
    case False
    have "(\<exists>pre post. pr # ds = pre @ (i, d) # post \<and> i \<notin> fst ` set pre)
        \<longleftrightarrow> (\<exists>pre post. ds = pre @ (i, d) # post \<and> i \<notin> fst ` set pre)"
    proof
      assume "\<exists>pre post. pr # ds = pre @ (i, d) # post \<and> i \<notin> fst ` set pre"
      then obtain pre post where e: "pr # ds = pre @ (i, d) # post" and n: "i \<notin> fst ` set pre"
        by blast
      show "\<exists>pre post. ds = pre @ (i, d) # post \<and> i \<notin> fst ` set pre"
      proof (cases pre)
        case Nil
        with e False show ?thesis by auto
      next
        case (Cons a list)
        with e n have "ds = list @ (i, d) # post \<and> i \<notin> fst ` set list" by auto
        then show ?thesis by blast
      qed
    next
      assume "\<exists>pre post. ds = pre @ (i, d) # post \<and> i \<notin> fst ` set pre"
      then obtain pre post where e: "ds = pre @ (i, d) # post" and n: "i \<notin> fst ` set pre"
        by blast
      with False have "pr # ds = (pr # pre) @ (i, d) # post \<and> i \<notin> fst ` set (pr # pre)"
        by auto
      then show "\<exists>pre post. pr # ds = pre @ (i, d) # post \<and> i \<notin> fst ` set pre"
        by blast
    qed
    with False Cons.IH show ?thesis by simp
  qed
qed

lemma getDriver_None: "getDriver w i = None \<longleftrightarrow> i \<notin> fst ` set (drivers w)"
  by (simp add: getDriver_def findDriver_None)

subsection \<open>Words\<close>

lemma sint_of_nat_small: "int n \<le> sint (N :: cint) \<Longrightarrow> sint (word_of_nat n :: cint) = int n"
proof -
  assume a: "int n \<le> sint N"
  have "sint N < 2 ^ 31" using sint_lt [of N] by simp
  with a have b: "int n < 2 ^ 31" by linarith
  show ?thesis
    using b by (simp add: signed_of_nat signed_take_bit_int_eq_self)
qed

lemma low_nibble_mask: "(15 :: 8 word) = mask 4"
  by (simp add: mask_eq_exp_minus_1)

lemma high_nibble_mask: "(240 :: 8 word) = NOT (mask 4)"
  by (simp add: mask_eq_exp_minus_1)

lemma channel_nibble_written:
  "((x AND 0xf0) OR (c AND 0x0f)) AND (0x0f :: 8 word) = c AND 0x0f"
  by (simp add: bit.conj_disj_distrib2 and.assoc)

lemma status_nibble_kept:
  "drop_bit 4 ((x AND 0xf0) OR (c AND (0x0f :: 8 word))) = drop_bit 4 x"
  unfolding low_nibble_mask high_nibble_mask
  by (rule bit_word_eqI) (auto simp add: bit_simps dest: bit_imp_le_length)

lemma cint_0_to_15:
  assumes "0 \<le> sint (c :: cint)" "sint c \<le> 15"
  shows "c \<in> {0,1,2,3,4,5,6,7,8,9,10,11,12,13,14,15}"
proof -
  define k where "k = sint c"
  have c: "c = word_of_int k" by (simp add: k_def)
  have "k \<in> {0,1,2,3,4,5,6,7,8,9,10,11,12,13,14,15}"
    using assms unfolding k_def [symmetric] by (simp only: insert_iff empty_iff) presburger
  then show ?thesis unfolding c by auto
qed

lemma channel_through_uint8:
  "0 \<le> sint (c :: cint) \<Longrightarrow> sint c \<le> 15 \<Longrightarrow> (ucast ((ucast c :: 8 word) AND 0x0f) :: cint) = c"
  using cint_0_to_15 [of c] by auto

lemma statusAndChannel_setChannel:
  "statusAndChannel (setChannel c m) = (statusAndChannel m AND 0xf0) OR (c AND 0x0f)"
  by (simp add: setChannel_def)

lemma getStatus_setChannel: "getStatus (setChannel c m) = getStatus m"
  unfolding getStatus_def statusAndChannel_setChannel by (rule status_nibble_kept)

lemma getChannel_setChannel: "getChannel (setChannel c m) = c AND 0x0f"
  unfolding getChannel_def statusAndChannel_setChannel by (rule channel_nibble_written)

subsection \<open>The driver registry\<close>

text \<open>
  C9. \<open>getDriver\<close> returns a driver exactly when some registered pair has the id; the
  driver it returns is the one of the first such pair of the vector, and \<open>addDriver\<close>
  appends at the end of the vector, so that is the earliest-registered one. Without
  such a pair it returns \<open>NULL\<close>.
\<close>

theorem getDriver_earliest_registered:
  "(getDriver w i \<noteq> None) = (i \<in> fst ` set (drivers w)) \<and>
   (getDriver w i = Some d) = (\<exists>pre post. drivers w = pre @ (i, d) # post \<and> i \<notin> fst ` set pre) \<and>
   addDriver i' (Some d') w = Some (w\<lparr>drivers := drivers w @ [(i', d')]\<rparr>)"
  unfolding getDriver_def addDriver_def
  using findDriver_None [of "drivers w" i] findDriver_Some [of "drivers w" i d]
  by simp

subsection \<open>The input queue\<close>

lemma onMessage_keeps_max: "queueMaxSize (InputQueue_onMessage m q) = queueMaxSize q"
  by (simp add: InputQueue_onMessage_def)

lemma onMessage_bounded:
  assumes "int (length (queue q)) \<le> sint (queueMaxSize q)"
  shows "int (length (queue (InputQueue_onMessage m q))) \<le> sint (queueMaxSize q)"
  using assms sint_of_nat_small [OF assms]
  by (simp add: InputQueue_onMessage_def)

lemma onMessages_bounded:
  "int (length (queue q)) \<le> sint (queueMaxSize q) \<Longrightarrow>
   int (length (queue (onMessages ms q))) \<le> sint (queueMaxSize q) \<and>
   queueMaxSize (onMessages ms q) = queueMaxSize q"
proof (induction ms arbitrary: q)
  case Nil
  then show ?case by simp
next
  case (Cons m ms)
  have "int (length (queue (InputQueue_onMessage m q))) \<le> sint (queueMaxSize (InputQueue_onMessage m q))"
    using onMessage_bounded [OF Cons.prems] by (simp add: onMessage_keeps_max)
  from Cons.IH [OF this] show ?case by (simp add: onMessage_keeps_max)
qed

lemma onMessage_full:
  "int (length (queue q)) = sint (queueMaxSize q) \<Longrightarrow> InputQueue_onMessage m q = q"
  using sint_of_nat_small [of "length (queue q)" "queueMaxSize q"]
  by (simp add: InputQueue_onMessage_def)

text \<open>
  C7. A queue that holds at most its configured maximum \<open>N\<close> of messages (so \<open>N\<close> is not
  negative) still does after any sequence of \<open>onMessage\<close> calls, and a call that arrives
  while it holds \<open>N\<close> messages leaves the queue as it was.
\<close>

theorem InputQueue_never_exceeds_max:
  assumes "int (length (queue q)) \<le> sint (queueMaxSize q)"
  shows "int (length (queue (onMessages ms q))) \<le> sint (queueMaxSize q)
       \<and> queueMaxSize (onMessages ms q) = queueMaxSize q
       \<and> (int (length (queue (onMessages ms q))) = sint (queueMaxSize q)
            \<longrightarrow> InputQueue_onMessage m (onMessages ms q) = onMessages ms q)"
proof -
  have b: "int (length (queue (onMessages ms q))) \<le> sint (queueMaxSize q)"
    and k: "queueMaxSize (onMessages ms q) = queueMaxSize q"
    using onMessages_bounded [OF assms] by simp_all
  have "int (length (queue (onMessages ms q))) = sint (queueMaxSize q)
            \<longrightarrow> InputQueue_onMessage m (onMessages ms q) = onMessages ms q"
    using onMessage_full [of "onMessages ms q" m] k by simp
  with b k show ?thesis by simp
qed

theorem InputQueue_never_exceeds_max_witness:
  "onMessages [msgA, msgB, msgC] \<lparr>queue = [], queueMaxSize = 2\<rparr> = \<lparr>queue = [msgA, msgB], queueMaxSize = 2\<rparr>
   \<and> int (length (queue (onMessages [msgA, msgB, msgC] \<lparr>queue = [], queueMaxSize = 2\<rparr>))) \<le> 2
   \<and> InputQueue_onMessage msgC (onMessages [msgA, msgB] \<lparr>queue = [], queueMaxSize = 2\<rparr>)
       = onMessages [msgA, msgB] \<lparr>queue = [], queueMaxSize = 2\<rparr>"
  using InputQueue_never_exceeds_max [of "\<lparr>queue = [], queueMaxSize = 2\<rparr>" "[msgA, msgB]" msgC]
  by (simp add: InputQueue_onMessage_def)

subsection \<open>Sending through an output port\<close>

lemma receivedBy_SomeD:
  "receivedBy d w = Some got \<Longrightarrow>
   \<exists>drv od. driverObjs w (fst d) = Some drv \<and> outputDevices drv (snd d) = Inr od \<and> got = received od"
  by (auto simp add: receivedBy_def split: option.splits sum.splits)

lemma sendMessage_result:
  assumes "device p = Some (dp, dev)" "driverObjs w dp = Some drv" "outputDevices drv dev = Inr od"
  shows "Output_sendMessage m (p, w) =
         Some (w\<lparr>driverObjs := (driverObjs w)(dp \<mapsto> drv\<lparr>outputDevices := (outputDevices drv)
                 (dev := Inr (od\<lparr>received := received od @
                    [if getStatus m \<noteq> 0xf \<and> 0 \<le> sint (channel p)
                     then setChannel (ucast (channel p)) m else m]\<rparr>))\<rparr>)\<rparr>)"
  using assms by (simp add: Output_sendMessage_def OutputDevice_sendMessage_def Let_def)

lemma sendMessage_bound:
  assumes "device p = Some d" "receivedBy d w = Some got"
  shows "\<exists>w'. Output_sendMessage m (p, w) = Some w' \<and>
           receivedBy d w' = Some (got @ [if getStatus m \<noteq> 0xf \<and> 0 \<le> sint (channel p)
                                          then setChannel (ucast (channel p)) m else m])"
proof -
  obtain dp dev where d: "d = (dp, dev)" by (cases d)
  from receivedBy_SomeD [OF assms(2)] d obtain drv od
    where drv: "driverObjs w dp = Some drv" and od: "outputDevices drv dev = Inr od"
      and got: "got = received od"
    by auto
  from assms(1) d have dev: "device p = Some (dp, dev)" by simp
  show ?thesis
    unfolding sendMessage_result [OF dev drv od] d got
    by (simp add: receivedBy_def)
qed

lemma sendMessage_unbound: "device p = None \<Longrightarrow> Output_sendMessage m (p, w) = Some w"
  by (simp add: Output_sendMessage_def)

lemma setChannel_fields:
  "data1 (setChannel c m) = data1 m" "data2 (setChannel c m) = data2 m"
  "timestamp (setChannel c m) = timestamp m"
  by (simp_all add: setChannel_def)

text \<open>
  C3. For an output port whose channel is in 0..15: \<open>sendMessage\<close> changes nothing when no
  device is bound; when a device is bound, the device is handed one message, which has
  the port's channel in its channel nibble and is otherwise the given message when the
  status nibble is not 0xF, and which is the given message itself when it is.
\<close>

theorem Output_sendMessage_stamps_channel:
  assumes "0 \<le> sint (channel p)" "sint (channel p) \<le> 15"
  shows "(device p = None \<longrightarrow> Output_sendMessage m (p, w) = Some w) \<and>
         (device p = Some d \<and> receivedBy d w = Some got \<longrightarrow>
            (\<exists>w' m'. Output_sendMessage m (p, w) = Some w' \<and> receivedBy d w' = Some (got @ [m']) \<and>
               (getStatus m \<noteq> 0xf \<longrightarrow>
                  ucast (getChannel m') = channel p \<and> getStatus m' = getStatus m \<and>
                  data1 m' = data1 m \<and> data2 m' = data2 m \<and> timestamp m' = timestamp m) \<and>
               (getStatus m = 0xf \<longrightarrow> m' = m)))"
proof (intro conjI impI)
  assume "device p = None"
  then show "Output_sendMessage m (p, w) = Some w" by (rule sendMessage_unbound)
next
  assume b: "device p = Some d \<and> receivedBy d w = Some got"
  define m' where "m' = (if getStatus m \<noteq> 0xf \<and> 0 \<le> sint (channel p)
                          then setChannel (ucast (channel p)) m else m)"
  from b sendMessage_bound [of p d w got m] obtain w'
    where s: "Output_sendMessage m (p, w) = Some w'" and r: "receivedBy d w' = Some (got @ [m'])"
    unfolding m'_def by blast
  have sys: "getStatus m = 0xf \<longrightarrow> m' = m" by (simp add: m'_def)
  have ch: "getStatus m \<noteq> 0xf \<longrightarrow>
                  ucast (getChannel m') = channel p \<and> getStatus m' = getStatus m \<and>
                  data1 m' = data1 m \<and> data2 m' = data2 m \<and> timestamp m' = timestamp m"
    using assms channel_through_uint8 [of "channel p"]
    by (simp add: m'_def getStatus_setChannel getChannel_setChannel setChannel_fields)
  from s r sys ch
  show "\<exists>w' m'. Output_sendMessage m (p, w) = Some w' \<and> receivedBy d w' = Some (got @ [m']) \<and>
               (getStatus m \<noteq> 0xf \<longrightarrow>
                  ucast (getChannel m') = channel p \<and> getStatus m' = getStatus m \<and>
                  data1 m' = data1 m \<and> data2 m' = data2 m \<and> timestamp m' = timestamp m) \<and>
               (getStatus m = 0xf \<longrightarrow> m' = m)"
    by blast
qed

text \<open>
  C10. After \<open>setChannel\<close> with a negative value, \<open>sendMessage\<close> hands the bound device the
  message as it was given, whatever its status: the channel is only overwritten when
  the port's channel is not negative.
\<close>

theorem Output_sendMessage_negative_channel:
  assumes "sint c < 0" "device p = Some d" "receivedBy d w = Some got"
  shows "\<exists>w'. Output_sendMessage m (Port_setChannel c p, w) = Some w' \<and>
              receivedBy d w' = Some (got @ [m])"
  using assms sendMessage_bound [of "Port_setChannel c p" d w got m]
  by (simp add: Port_setChannel_def)

lemma exOutput_received: "receivedBy (100, 0) exWorld = Some []"
  by (simp add: receivedBy_def exWorld_def exDriver_def)

theorem Output_sendMessage_stamps_channel_witness:
  "0 \<le> sint (channel exOutput) \<and> sint (channel exOutput) \<le> 15 \<and> channel exOutput = 5
   \<and> getStatus msgA \<noteq> 0xf \<and> getChannel msgA = 2 \<and> device exOutput = Some (100, 0)
   \<and> (\<exists>w' m'. Output_sendMessage msgA (exOutput, exWorld) = Some w' \<and>
         receivedBy (100, 0) w' = Some [m'] \<and> ucast (getChannel m') = channel exOutput \<and>
         getStatus m' = getStatus msgA)
   \<and> (\<exists>w'. Output_sendMessage msgC (exOutput, exWorld) = Some w' \<and>
         receivedBy (100, 0) w' = Some [msgC])"
proof -
  have lo: "0 \<le> sint (channel exOutput)" and hi: "sint (channel exOutput) \<le> 15"
    and c: "channel exOutput = 5" and d: "device exOutput = Some (100, 0)"
    by (simp_all add: exOutput_def)
  have a: "getStatus msgA \<noteq> 0xf" and g: "getChannel msgA = 2" and b: "getStatus msgC = 0xf"
    by (simp_all add: getStatus_def getChannel_def msgA_def msgC_def)
  from Output_sendMessage_stamps_channel [OF lo hi, where d = "(100, 0)" and w = exWorld and got = "[]" and m = msgA] d exOutput_received a
  have 1: "\<exists>w' m'. Output_sendMessage msgA (exOutput, exWorld) = Some w' \<and>
         receivedBy (100, 0) w' = Some [m'] \<and> ucast (getChannel m') = channel exOutput \<and>
         getStatus m' = getStatus msgA"
    by auto
  from Output_sendMessage_stamps_channel [OF lo hi, where d = "(100, 0)" and w = exWorld and got = "[]" and m = msgC] d exOutput_received b
  have 2: "\<exists>w'. Output_sendMessage msgC (exOutput, exWorld) = Some w' \<and>
         receivedBy (100, 0) w' = Some [msgC]"
    by auto
  from lo hi c d a g 1 2 show ?thesis by simp
qed

theorem Output_sendMessage_negative_channel_witness:
  "sint (- 1 :: cint) < 0 \<and> device exOutput = Some (100, 0) \<and> getStatus msgA \<noteq> 0xf
   \<and> (\<exists>w'. Output_sendMessage msgA (Port_setChannel (- 1) exOutput, exWorld) = Some w' \<and>
         receivedBy (100, 0) w' = Some [msgA])"
proof -
  have n: "sint (- 1 :: cint) < 0" by simp
  have d: "device exOutput = Some (100, 0)" by (simp add: exOutput_def)
  have a: "getStatus msgA \<noteq> 0xf" by (simp add: getStatus_def msgA_def)
  from Output_sendMessage_negative_channel [OF n d exOutput_received, where m = msgA]
  have "\<exists>w'. Output_sendMessage msgA (Port_setChannel (- 1) exOutput, exWorld) = Some w' \<and>
         receivedBy (100, 0) w' = Some [msgA]"
    by simp
  with n d a show ?thesis by simp
qed

subsection \<open>Fan-out of an input device\<close>

lemma fanOut_total: "(\<forall>i\<in>set xs. ps i \<noteq> None) \<Longrightarrow> \<exists>es. fanOut ps msg xs = Some es"
  by (induction xs) auto

lemma fanOut_invoked:
  "fanOut ps msg xs = Some es \<Longrightarrow>
   invoked i es \<longleftrightarrow>
     (i \<in> set xs \<and> (\<exists>input. ps i = Some input \<and>
        \<not> (getStatus msg \<noteq> 0xf \<and> 0 \<le> sint (channel input) \<and> ucast (getChannel msg) \<noteq> channel input)))"
proof (induction xs arbitrary: es)
  case Nil
  then show ?case by simp
next
  case (Cons x xs)
  then show ?case
    by (auto split: option.splits if_splits)
qed

lemma fanOut_messages:
  "fanOut ps msg xs = Some es \<Longrightarrow> OnMessage j m' \<in> set es \<Longrightarrow> m' = msg"
proof (induction xs arbitrary: es)
  case Nil
  then show ?case by simp
next
  case (Cons x xs)
  then show ?case
    by (auto split: option.splits if_splits)
qed

lemma all_channels_iff: "- 1 \<le> sint (c :: cint) \<Longrightarrow> \<not> 0 \<le> sint c \<longleftrightarrow> c = - 1"
proof -
  assume a: "- 1 \<le> sint c"
  have "sint c = - 1 \<longleftrightarrow> c = - 1"
    using signed_word_eqI [of c "- 1"] by auto
  with a show ?thesis by auto
qed

lemma stamped_nibbles:
  "getStatus (m\<lparr>timestamp := t\<rparr>) = getStatus m" "getChannel (m\<lparr>timestamp := t\<rparr>) = getChannel m"
  by (simp_all add: getStatus_def getChannel_def)

lemma onMessage_total:
  assumes "\<forall>j. j |\<in>| inSubscribed d \<longrightarrow> ps j \<noteq> None"
  shows "\<exists>es. InputDevice_onMessage now ps d m = Some es"
  unfolding InputDevice_onMessage_def Let_def
  by (rule fanOut_total) (use assms in simp)

text \<open>
  C1. \<open>InputDevice::onMessage\<close> with message \<open>m\<close>, for a subscribed port with channel
  filter \<open>c\<close>: the handler is called exactly when the status nibble of \<open>m\<close> is 0xF, or \<open>c\<close> is
  negative, or \<open>c\<close> is the channel of \<open>m\<close>. So for a filter from -1 upwards: the handler is
  called when the status nibble is 0xF; otherwise it is called exactly when \<open>c = -1\<close> or
  \<open>c\<close> is the channel of \<open>m\<close>, and it is not called when \<open>c \<ge> 0\<close> and the channel of \<open>m\<close>
  differs from \<open>c\<close>.
\<close>

theorem InputDevice_onMessage_channel_filter:
  assumes "\<forall>j. j |\<in>| inSubscribed d \<longrightarrow> ps j \<noteq> None"
    and "i |\<in>| inSubscribed d" and "ps i = Some input"
  shows "\<exists>es. InputDevice_onMessage now ps d m = Some es \<and>
           (invoked i es \<longleftrightarrow>
              getStatus m = 0xf \<or> sint (channel input) < 0 \<or> channel input = ucast (getChannel m)) \<and>
           (- 1 \<le> sint (channel input) \<longrightarrow>
              (getStatus m = 0xf \<longrightarrow> invoked i es) \<and>
              (getStatus m \<noteq> 0xf \<longrightarrow>
                 (invoked i es \<longleftrightarrow> channel input = - 1 \<or> channel input = ucast (getChannel m))) \<and>
              (getStatus m \<noteq> 0xf \<and> 0 \<le> sint (channel input) \<and> ucast (getChannel m) \<noteq> channel input
                 \<longrightarrow> \<not> invoked i es))"
proof -
  from onMessage_total [OF assms(1)] obtain es
    where es: "InputDevice_onMessage now ps d m = Some es" by blast
  define msg where "msg = (if timestamp m = 0 then m\<lparr>timestamp := now\<rparr> else m)"
  have f: "fanOut ps msg (sorted_list_of_fset (inSubscribed d)) = Some es"
    using es by (simp add: InputDevice_onMessage_def Let_def msg_def)
  have st: "getStatus msg = getStatus m" and ch: "getChannel msg = getChannel m"
    by (simp_all add: msg_def stamped_nibbles)
  have inv: "invoked i es \<longleftrightarrow>
      \<not> (getStatus m \<noteq> 0xf \<and> 0 \<le> sint (channel input) \<and> ucast (getChannel m) \<noteq> channel input)"
    using fanOut_invoked [OF f, of i] assms(2,3) by (simp add: st ch)
  have 1: "invoked i es \<longleftrightarrow>
              getStatus m = 0xf \<or> sint (channel input) < 0 \<or> channel input = ucast (getChannel m)"
    using inv by auto
  have 2: "- 1 \<le> sint (channel input) \<longrightarrow>
              (getStatus m = 0xf \<longrightarrow> invoked i es) \<and>
              (getStatus m \<noteq> 0xf \<longrightarrow>
                 (invoked i es \<longleftrightarrow> channel input = - 1 \<or> channel input = ucast (getChannel m))) \<and>
              (getStatus m \<noteq> 0xf \<and> 0 \<le> sint (channel input) \<and> ucast (getChannel m) \<noteq> channel input
                 \<longrightarrow> \<not> invoked i es)"
  proof
    assume "- 1 \<le> sint (channel input)"
    then have "\<not> 0 \<le> sint (channel input) \<longleftrightarrow> channel input = - 1"
      by (rule all_channels_iff)
    with inv show "(getStatus m = 0xf \<longrightarrow> invoked i es) \<and>
              (getStatus m \<noteq> 0xf \<longrightarrow>
                 (invoked i es \<longleftrightarrow> channel input = - 1 \<or> channel input = ucast (getChannel m))) \<and>
              (getStatus m \<noteq> 0xf \<and> 0 \<le> sint (channel input) \<and> ucast (getChannel m) \<noteq> channel input
                 \<longrightarrow> \<not> invoked i es)"
      by auto
  qed
  from es 1 2 show ?thesis by blast
qed

lemma fanOut_events:
  "fanOut ps msg xs = Some es \<Longrightarrow>
   OnMessage j m' \<in> set es \<longleftrightarrow>
     (j \<in> set xs \<and> m' = msg \<and> (\<exists>input. ps j = Some input \<and>
        \<not> (getStatus msg \<noteq> 0xf \<and> 0 \<le> sint (channel input) \<and> ucast (getChannel msg) \<noteq> channel input)))"
proof (induction xs arbitrary: es)
  case Nil
  then show ?case by simp
next
  case (Cons x xs)
  then show ?case
    by (auto split: option.splits if_splits)
qed

text \<open>
  C8, amended. \<open>InputDevice::onMessage\<close> with message \<open>m\<close> calls the handler of exactly the
  subscribed ports that pass the channel filter, each with the same message: \<open>m\<close> with
  the clock's reading \<open>now\<close> as its timestamp when the timestamp of \<open>m\<close> is 0, and \<open>m\<close>
  itself when it is not. The stamped timestamp is the reading, whatever it is.
\<close>

theorem InputDevice_onMessage_stamps:
  assumes "\<forall>j. j |\<in>| inSubscribed d \<longrightarrow> ps j \<noteq> None"
  shows "\<exists>es. InputDevice_onMessage now ps d m = Some es \<and>
           (\<forall>j m'. OnMessage j m' \<in> set es \<longleftrightarrow>
              j |\<in>| inSubscribed d \<and>
              (\<exists>input. ps j = Some input \<and>
                 (getStatus m = 0xf \<or> sint (channel input) < 0 \<or> channel input = ucast (getChannel m))) \<and>
              m' = (if timestamp m = 0 then m\<lparr>timestamp := now\<rparr> else m)) \<and>
           (\<forall>j m'. OnMessage j m' \<in> set es \<longrightarrow>
              (timestamp m = 0 \<longrightarrow> timestamp m' = now) \<and> (timestamp m \<noteq> 0 \<longrightarrow> m' = m))"
proof -
  from onMessage_total [OF assms(1)] obtain es
    where es: "InputDevice_onMessage now ps d m = Some es" by blast
  define msg where "msg = (if timestamp m = 0 then m\<lparr>timestamp := now\<rparr> else m)"
  have f: "fanOut ps msg (sorted_list_of_fset (inSubscribed d)) = Some es"
    using es by (simp add: InputDevice_onMessage_def Let_def msg_def)
  have st: "getStatus msg = getStatus m" and ch: "getChannel msg = getChannel m"
    by (simp_all add: msg_def stamped_nibbles)
  have 1: "OnMessage j m' \<in> set es \<longleftrightarrow>
              j |\<in>| inSubscribed d \<and>
              (\<exists>input. ps j = Some input \<and>
                 (getStatus m = 0xf \<or> sint (channel input) < 0 \<or> channel input = ucast (getChannel m))) \<and>
              m' = msg" for j m'
    unfolding fanOut_events [OF f, of j m'] st ch by auto
  have 2: "OnMessage j m' \<in> set es \<longrightarrow>
              (timestamp m = 0 \<longrightarrow> timestamp m' = now) \<and> (timestamp m \<noteq> 0 \<longrightarrow> m' = m)" for j m'
    unfolding 1 by (simp add: msg_def)
  from es 1 2 show ?thesis unfolding msg_def by blast
qed

lemma exDevice_ports: "\<forall>j. j |\<in>| inSubscribed exDevice \<longrightarrow> exPorts j \<noteq> None"
  by (simp add: exDevice_def exPorts_def)

theorem InputDevice_onMessage_channel_filter_witness:
  "7 |\<in>| inSubscribed exDevice \<and> exPorts 7 = Some (exInput\<lparr>channel := 3\<rparr>)
   \<and> - 1 \<le> sint (channel (exInput\<lparr>channel := 3\<rparr>)) \<and> getStatus msgA \<noteq> 0xf \<and> getStatus msgC = 0xf
   \<and> ucast (getChannel msgA) \<noteq> channel (exInput\<lparr>channel := 3\<rparr>)
   \<and> (\<exists>es. InputDevice_onMessage (3 / 2) exPorts exDevice msgA = Some es \<and> \<not> invoked 7 es)
   \<and> (\<exists>es. InputDevice_onMessage (3 / 2) exPorts exDevice msgC = Some es \<and> invoked 7 es)"
proof -
  have s: "7 |\<in>| inSubscribed exDevice" by (simp add: exDevice_def)
  have p: "exPorts 7 = Some (exInput\<lparr>channel := 3\<rparr>)" by (simp add: exPorts_def)
  have c: "- 1 \<le> sint (channel (exInput\<lparr>channel := 3\<rparr>))" by simp
  have a: "getStatus msgA \<noteq> 0xf" and b: "getStatus msgC = 0xf"
    and n: "ucast (getChannel msgA) \<noteq> channel (exInput\<lparr>channel := 3\<rparr>)"
    by (simp_all add: getStatus_def getChannel_def msgA_def msgC_def)
  from InputDevice_onMessage_channel_filter [OF exDevice_ports s p, where now = "3 / 2" and m = msgA] c a n
  have 1: "\<exists>es. InputDevice_onMessage (3 / 2) exPorts exDevice msgA = Some es \<and> \<not> invoked 7 es"
    by auto
  from InputDevice_onMessage_channel_filter [OF exDevice_ports s p, where now = "3 / 2" and m = msgC] c b
  have 2: "\<exists>es. InputDevice_onMessage (3 / 2) exPorts exDevice msgC = Some es \<and> invoked 7 es"
    by auto
  from s p c a b n 1 2 show ?thesis by simp
qed

theorem InputDevice_onMessage_stamps_witness:
  "timestamp msgA = 0 \<and> timestamp msgB \<noteq> 0 \<and> 6 |\<in>| inSubscribed exDevice \<and> exPorts 6 = Some exInput
   \<and> sint (channel exInput) < 0
   \<and> (\<exists>es. InputDevice_onMessage (3 / 2) exPorts exDevice msgA = Some es \<and>
        OnMessage 6 (msgA\<lparr>timestamp := 3 / 2\<rparr>) \<in> set es \<and> OnMessage 6 msgA \<notin> set es \<and>
        OnMessage 7 (msgA\<lparr>timestamp := 3 / 2\<rparr>) \<notin> set es)
   \<and> (\<exists>es. InputDevice_onMessage (3 / 2) exPorts exDevice msgB = Some es \<and>
        OnMessage 6 msgB \<in> set es \<and> OnMessage 6 (msgB\<lparr>timestamp := 3 / 2\<rparr>) \<notin> set es)"
proof -
  have a: "timestamp msgA = 0" and b: "timestamp msgB \<noteq> 0"
    by (simp_all add: msgA_def msgB_def)
  have s: "6 |\<in>| inSubscribed exDevice" and p: "exPorts 6 = Some exInput"
    and p7: "exPorts 7 = Some (exInput\<lparr>channel := 3\<rparr>)"
    and c: "sint (channel exInput) < 0"
    by (simp_all add: exDevice_def exPorts_def exInput_def)
  have na: "msgA \<noteq> msgA\<lparr>timestamp := 3 / 2\<rparr>" and nb: "msgB \<noteq> msgB\<lparr>timestamp := 3 / 2\<rparr>"
    by (simp_all add: msgA_def msgB_def)
  have f7: "getStatus msgA \<noteq> 0xf" "\<not> sint (channel (exInput\<lparr>channel := 3\<rparr>)) < 0"
    "channel (exInput\<lparr>channel := 3\<rparr>) \<noteq> ucast (getChannel msgA)"
    by (simp_all add: getStatus_def getChannel_def msgA_def)
  from InputDevice_onMessage_stamps [OF exDevice_ports, where now = "3 / 2" and m = msgA] a s p c na p7 f7
  have 1: "\<exists>es. InputDevice_onMessage (3 / 2) exPorts exDevice msgA = Some es \<and>
        OnMessage 6 (msgA\<lparr>timestamp := 3 / 2\<rparr>) \<in> set es \<and> OnMessage 6 msgA \<notin> set es \<and>
        OnMessage 7 (msgA\<lparr>timestamp := 3 / 2\<rparr>) \<notin> set es"
    by auto
  from InputDevice_onMessage_stamps [OF exDevice_ports, where now = "3 / 2" and m = msgB] b s p c nb
  have 2: "\<exists>es. InputDevice_onMessage (3 / 2) exPorts exDevice msgB = Some es \<and>
        OnMessage 6 msgB \<in> set es \<and> OnMessage 6 (msgB\<lparr>timestamp := 3 / 2\<rparr>) \<notin> set es"
    by auto
  from a b s p c 1 2 show ?thesis by simp
qed

text \<open>
  C8 as stated fails when the clock reads 0: the message with timestamp 0 reaches the
  handlers of the ports 5 and 6 with timestamp 0.
\<close>

theorem InputDevice_onMessage_clock_zero_counterexample:
  "timestamp msgA = 0 \<and>
   InputDevice_onMessage 0 exPorts exDevice msgA =
     Some [ContextSet 1, OnMessage 5 msgA, ContextSet 1, OnMessage 6 msgA, ContextSet 1]"
  by (simp add: InputDevice_onMessage_def Let_def exPorts_def exDevice_def exInput_def msgA_def
        sorted_list_of_fset.rep_eq getStatus_def getChannel_def)

subsection \<open>Device names\<close>

text \<open>
  C4. \<open>Output::getDeviceName\<close> returns the empty string for a port whose driver names
  device 0 "Synth", and calls through a null pointer for a port without a driver;
  \<open>Input::getDeviceName\<close> on the same driver returns the driver's name, and the empty
  string without a driver.
\<close>

theorem Output_getDeviceName_ignores_driver:
  "driver exOutput = Some 100 \<and> driverObjs exWorld 100 = Some exDriver
   \<and> getOutputDeviceName exDriver 0 = Inr ''Synth''
   \<and> Output_getDeviceName 0 (exOutput, exWorld) = Some ([], exWorld)
   \<and> Output_getDeviceName 0 (exOutput\<lparr>driver := None\<rparr>, exWorld) = None
   \<and> Input_getDeviceName 0 (exInput, exWorld) = Some (''Keys'', exWorld)
   \<and> Input_getDeviceName 0 (exInput\<lparr>driver := None\<rparr>, exWorld) = Some ([], exWorld)"
  by (simp add: Output_getDeviceName_def Input_getDeviceName_def exOutput_def exInput_def
        exWorld_def exDriver_def)

lemma Input_getDeviceName_delegates:
  "driver p = Some dp \<Longrightarrow> driverObjs w dp = Some drv \<Longrightarrow>
   map_option fst (Input_getDeviceName i (p, w)) =
     Some (case getInputDeviceName drv i of Inr n \<Rightarrow> n | Inl e \<Rightarrow> [])"
  by (simp add: Input_getDeviceName_def split: sum.splits)

lemma Input_getDeviceName_no_driver:
  "driver p = None \<Longrightarrow> Input_getDeviceName i (p, w) = Some ([], w)"
  by (simp add: Input_getDeviceName_def)

lemma Output_getDeviceName_with_driver:
  "driver p = Some dp \<Longrightarrow> Output_getDeviceName i (p, w) = Some ([], w)"
  by (simp add: Output_getDeviceName_def)

subsection \<open>What binding and unbinding leave alone\<close>

lemma sameInputDevice_refl: "sameInputDevice a a"
  by (simp add: sameInputDevice_def split: sum.splits)

lemma sameOutputDevice_refl: "sameOutputDevice a a"
  by (simp add: sameOutputDevice_def split: sum.splits)

lemma sameInputDevice_trans:
  "sameInputDevice a b \<Longrightarrow> sameInputDevice b c \<Longrightarrow> sameInputDevice a c"
  by (auto simp add: sameInputDevice_def split: sum.splits)

lemma sameOutputDevice_trans:
  "sameOutputDevice a b \<Longrightarrow> sameOutputDevice b c \<Longrightarrow> sameOutputDevice a c"
  by (auto simp add: sameOutputDevice_def split: sum.splits)

lemma sameDriver_refl: "sameDriver a a"
  by (simp add: sameDriver_def sameInputDevice_refl sameOutputDevice_refl)

lemma sameDriver_trans: "sameDriver a b \<Longrightarrow> sameDriver b c \<Longrightarrow> sameDriver a c"
  unfolding sameDriver_def
  by (metis sameInputDevice_trans sameOutputDevice_trans)

lemma sameWorld_refl: "sameWorld w w"
  by (simp add: sameWorld_def option.rel_refl sameDriver_refl)

lemma sameWorld_trans:
  assumes "sameWorld a b" "sameWorld b c"
  shows "sameWorld a c"
proof -
  have "rel_option sameDriver (driverObjs a dp) (driverObjs c dp)" for dp
  proof -
    from assms have 1: "rel_option sameDriver (driverObjs a dp) (driverObjs b dp)"
      and 2: "rel_option sameDriver (driverObjs b dp) (driverObjs c dp)"
      by (simp_all add: sameWorld_def)
    show ?thesis
      using 1 2
      by (cases "driverObjs a dp"; cases "driverObjs b dp"; cases "driverObjs c dp")
         (auto intro: sameDriver_trans)
  qed
  with assms show ?thesis by (simp add: sameWorld_def)
qed

lemma sameWorld_WARN: "sameWorld w (WARN l w)"
  by (simp add: sameWorld_def WARN_def option.rel_refl sameDriver_refl)

lemma sameWorld_update:
  assumes "driverObjs w dp = Some drv" "sameDriver drv drv'"
  shows "sameWorld w (w\<lparr>driverObjs := (driverObjs w)(dp \<mapsto> drv')\<rparr>)"
  using assms by (auto simp add: sameWorld_def option.rel_refl sameDriver_refl)

lemma sameWorld_driverObjs:
  "sameWorld w w' \<Longrightarrow> driverObjs w dp = Some drv \<Longrightarrow>
   \<exists>drv'. driverObjs w' dp = Some drv' \<and> sameDriver drv drv'"
  unfolding sameWorld_def
  by (metis option.rel_cases option.inject option.distinct(1))

lemma sameWorld_alive: "sameWorld w w' \<Longrightarrow> driverObjs w dp \<noteq> None \<Longrightarrow> driverObjs w' dp \<noteq> None"
  using sameWorld_driverObjs [of w w' dp] by auto

lemma sameWorld_getDriver: "sameWorld w w' \<Longrightarrow> getDriver w' i = getDriver w i"
  by (simp add: sameWorld_def getDriver_def)

lemma sameWorld_registryAlive: "sameWorld w w' \<Longrightarrow> registryAlive w \<Longrightarrow> registryAlive w'"
  unfolding registryAlive_def list_all_iff
  using sameWorld_alive [of w w'] by (auto simp add: sameWorld_def)

lemma samePort_refl: "samePort p p"
  by (simp add: samePort_def)

lemma samePort_trans: "samePort a b \<Longrightarrow> samePort b c \<Longrightarrow> samePort a c"
  by (simp add: samePort_def)

lemma driverAlive_same:
  "driverAlive p w \<Longrightarrow> samePort p p' \<Longrightarrow> sameWorld w w' \<Longrightarrow> driverAlive p' w'"
  unfolding driverAlive_def samePort_def
  using sameWorld_alive [of w w'] by (auto split: option.splits)

text \<open>The four driver calls change subscriber sets only.\<close>

lemma subscribeInput_same: "subscribeInput dev i drv = Inr drv' \<Longrightarrow> sameDriver drv drv'"
  by (auto simp add: subscribeInput_def sameDriver_def sameInputDevice_def sameOutputDevice_def
        InputDevice_subscribe_def split: sum.splits if_splits)

lemma unsubscribeInput_same: "unsubscribeInput dev i drv = Inr drv' \<Longrightarrow> sameDriver drv drv'"
  by (auto simp add: unsubscribeInput_def sameDriver_def sameInputDevice_def sameOutputDevice_def
        InputDevice_unsubscribe_def split: sum.splits if_splits)

lemma subscribeOutput_same: "subscribeOutput dev i drv = Inr drv' \<Longrightarrow> sameDriver drv drv'"
  by (auto simp add: subscribeOutput_def sameDriver_def sameInputDevice_def sameOutputDevice_def
        OutputDevice_subscribe_def split: sum.splits if_splits)

lemma unsubscribeOutput_same: "unsubscribeOutput dev i drv = Inr drv' \<Longrightarrow> sameDriver drv drv'"
  by (auto simp add: unsubscribeOutput_def sameDriver_def sameInputDevice_def sameOutputDevice_def
        OutputDevice_unsubscribe_def split: sum.splits if_splits)

lemma destroyDevice_same:
  assumes u: "\<And>dev drv drv'. unsubscribe dev this drv = Inr drv' \<Longrightarrow> sameDriver drv drv'"
    and a: "driverAlive p w"
  shows "\<exists>w'. destroyDevice unsubscribe dir this (p, w) = Some (p\<lparr>device := None, deviceId := - 1\<rparr>, w')
              \<and> sameWorld w w'"
proof (cases "driver p")
  case None
  then show ?thesis by (simp add: destroyDevice_def sameWorld_refl)
next
  case (Some dp)
  with a obtain drv where drv: "driverObjs w dp = Some drv"
    by (auto simp add: driverAlive_def)
  show ?thesis
  proof (cases "0 \<le> sint (deviceId p)")
    case False
    with Some show ?thesis by (simp add: destroyDevice_def sameWorld_refl)
  next
    case True
    show ?thesis
    proof (cases "unsubscribe (deviceId p) this drv")
      case (Inl e)
      with Some drv True show ?thesis
        by (simp add: destroyDevice_def sameWorld_WARN)
    next
      case (Inr drv')
      from u [OF Inr] have "sameDriver drv drv'" .
      with Some drv True Inr show ?thesis
        by (simp add: destroyDevice_def sameWorld_update)
    qed
  qed
qed

lemma createDevice_negative: "\<not> 0 \<le> sint x \<Longrightarrow> createDevice subscribe dir this x s = Some s"
  by (cases s) (simp add: createDevice_def split: option.splits)

lemma createDevice_same:
  assumes u: "\<And>dev drv drv'. subscribe dev this drv = Inr drv' \<Longrightarrow> sameDriver drv drv'"
    and a: "driverAlive p w"
  shows "\<exists>p' w'. createDevice subscribe dir this x (p, w) = Some (p', w')
              \<and> samePort p p' \<and> sameWorld w w'"
proof (cases "driver p")
  case None
  then show ?thesis by (simp add: createDevice_def sameWorld_refl samePort_refl)
next
  case (Some dp)
  with a obtain drv where drv: "driverObjs w dp = Some drv"
    by (auto simp add: driverAlive_def)
  show ?thesis
  proof (cases "0 \<le> sint x")
    case False
    with Some show ?thesis by (simp add: createDevice_def sameWorld_refl samePort_refl)
  next
    case True
    show ?thesis
    proof (cases "subscribe x this drv")
      case (Inl e)
      with Some drv True show ?thesis
        by (simp add: createDevice_def sameWorld_WARN samePort_refl)
    next
      case (Inr drv')
      from u [OF Inr] have "sameDriver drv drv'" .
      with Some drv True Inr show ?thesis
        by (simp add: createDevice_def sameWorld_update samePort_def)
    qed
  qed
qed

lemma samePort_unbound: "samePort p (p\<lparr>device := None, deviceId := - 1\<rparr>)"
  by (simp add: samePort_def)

lemma setDeviceId_generic:
  assumes u: "\<And>dev drv drv'. unsubscribe dev this drv = Inr drv' \<Longrightarrow> sameDriver drv drv'"
    and s: "\<And>dev drv drv'. subscribe dev this drv = Inr drv' \<Longrightarrow> sameDriver drv drv'"
    and a: "driverAlive p w"
  shows "\<exists>p' w'. (destroyDevice unsubscribe dir this (p, w) \<bind> createDevice subscribe dir this x) = Some (p', w')
              \<and> samePort p p' \<and> sameWorld w w'
              \<and> (\<not> 0 \<le> sint x \<longrightarrow> p' = p\<lparr>device := None, deviceId := - 1\<rparr>)"
proof -
  have "\<exists>w1. destroyDevice unsubscribe dir this (p, w) = Some (p\<lparr>device := None, deviceId := - 1\<rparr>, w1)
              \<and> sameWorld w w1"
    by (rule destroyDevice_same) (erule u, rule a)
  then obtain w1
    where d: "destroyDevice unsubscribe dir this (p, w) = Some (p\<lparr>device := None, deviceId := - 1\<rparr>, w1)"
      and w1: "sameWorld w w1" by blast
  have a1: "driverAlive (p\<lparr>device := None, deviceId := - 1\<rparr>) w1"
    by (rule driverAlive_same [OF a samePort_unbound w1])
  have "\<exists>p' w'. createDevice subscribe dir this x (p\<lparr>device := None, deviceId := - 1\<rparr>, w1) = Some (p', w')
              \<and> samePort (p\<lparr>device := None, deviceId := - 1\<rparr>) p' \<and> sameWorld w1 w'"
    by (rule createDevice_same) (erule s, rule a1)
  then obtain p' w' where
    c: "createDevice subscribe dir this x (p\<lparr>device := None, deviceId := - 1\<rparr>, w1) = Some (p', w')"
    and pp: "samePort (p\<lparr>device := None, deviceId := - 1\<rparr>) p'" and ww: "sameWorld w1 w'"
    by blast
  have n: "\<not> 0 \<le> sint x \<longrightarrow> p' = p\<lparr>device := None, deviceId := - 1\<rparr>"
    using c createDevice_negative [of x subscribe dir this "(p\<lparr>device := None, deviceId := - 1\<rparr>, w1)"]
    by auto
  from d c have "(destroyDevice unsubscribe dir this (p, w) \<bind> createDevice subscribe dir this x) = Some (p', w')"
    by simp
  moreover have "samePort p p'" by (rule samePort_trans [OF samePort_unbound pp])
  moreover have "sameWorld w w'" by (rule sameWorld_trans [OF w1 ww])
  ultimately show ?thesis using n by blast
qed

lemma Port_setDeviceId_same:
  assumes "driverAlive p w"
  shows "\<exists>p' w'. Port_setDeviceId this x (p, w) = Some (p', w')
              \<and> samePort p p' \<and> sameWorld w w'
              \<and> (\<not> 0 \<le> sint x \<longrightarrow> p' = p\<lparr>device := None, deviceId := - 1\<rparr>)"
proof (cases "kind p")
  case Input
  have "\<exists>p' w'. (destroyDevice unsubscribeInput ''input'' this (p, w) \<bind> createDevice subscribeInput ''input'' this x) = Some (p', w')
              \<and> samePort p p' \<and> sameWorld w w'
              \<and> (\<not> 0 \<le> sint x \<longrightarrow> p' = p\<lparr>device := None, deviceId := - 1\<rparr>)"
    by (rule setDeviceId_generic) (erule unsubscribeInput_same, erule subscribeInput_same, rule assms)
  then show ?thesis using Input by (simp add: Port_setDeviceId_def Input_setDeviceId_def)
next
  case Output
  have "\<exists>p' w'. (destroyDevice unsubscribeOutput ''output'' this (p, w) \<bind> createDevice subscribeOutput ''output'' this x) = Some (p', w')
              \<and> samePort p p' \<and> sameWorld w w'
              \<and> (\<not> 0 \<le> sint x \<longrightarrow> p' = p\<lparr>device := None, deviceId := - 1\<rparr>)"
    by (rule setDeviceId_generic) (erule unsubscribeOutput_same, erule subscribeOutput_same, rule assms)
  then show ?thesis using Output by (simp add: Port_setDeviceId_def Output_setDeviceId_def)
qed

subsection \<open>Binding a driver\<close>

lemma Port_setDriverId_result:
  assumes "drivers w \<noteq> []" "driverAlive p w"
  shows "\<exists>w'. Port_setDriverId this i (p, w) =
           Some (p\<lparr>device := None, deviceId := - 1,
                   driver := (case getDriver w i of Some d \<Rightarrow> Some d | None \<Rightarrow> Some (snd (drivers w ! 0))),
                   driverId := (case getDriver w i of Some d \<Rightarrow> i | None \<Rightarrow> fst (drivers w ! 0))\<rparr>, w')
         \<and> sameWorld w w'"
proof -
  from Port_setDeviceId_same [OF assms(2), of this "- 1"] obtain w'
    where d: "Port_setDeviceId this (- 1) (p, w) = Some (p\<lparr>device := None, deviceId := - 1\<rparr>, w')"
      and s: "sameWorld w w'"
    by auto
  have g: "getDriver w' i = getDriver w i" by (rule sameWorld_getDriver [OF s])
  have r: "drivers w' = drivers w" using s by (simp add: sameWorld_def)
  obtain first rest where f: "drivers w = first # rest" using assms(1) by (cases "drivers w") auto
  have "Port_setDriverId this i (p, w) =
           Some (p\<lparr>device := None, deviceId := - 1,
                   driver := (case getDriver w i of Some d \<Rightarrow> Some d | None \<Rightarrow> Some (snd (drivers w ! 0))),
                   driverId := (case getDriver w i of Some d \<Rightarrow> i | None \<Rightarrow> fst (drivers w ! 0))\<rparr>, w')"
    by (cases "getDriver w i") (simp_all add: Port_setDriverId_def d g r f)
  with s show ?thesis by blast
qed

text \<open>
  C5. With at least one driver registered (and the port's current driver pointer, if
  any, referring to a live driver): after \<open>setDriverId(id)\<close> the port has no device
  (\<open>deviceId = -1\<close>); if \<open>id\<close> is registered, its driver is the one \<open>getDriver\<close> finds for
  \<open>id\<close> and its \<open>driverId\<close> is \<open>id\<close>; otherwise they are those of the first registered pair.
\<close>

theorem Port_setDriverId_binds:
  assumes "drivers w \<noteq> []" "driverAlive p w"
  shows "\<exists>p' w'. Port_setDriverId this i (p, w) = Some (p', w') \<and>
           deviceId p' = - 1 \<and> device p' = None \<and> drivers w' = drivers w \<and>
           (i \<in> fst ` set (drivers w) \<longrightarrow>
              driver p' = getDriver w i \<and> getDriver w i \<noteq> None \<and> driverId p' = i) \<and>
           (i \<notin> fst ` set (drivers w) \<longrightarrow>
              driver p' = Some (snd (drivers w ! 0)) \<and> driverId p' = fst (drivers w ! 0))"
proof -
  from Port_setDriverId_result [OF assms, of this i] obtain p' w'
    where r: "Port_setDriverId this i (p, w) = Some (p', w')"
      and p': "p' = p\<lparr>device := None, deviceId := - 1,
                   driver := (case getDriver w i of Some d \<Rightarrow> Some d | None \<Rightarrow> Some (snd (drivers w ! 0))),
                   driverId := (case getDriver w i of Some d \<Rightarrow> i | None \<Rightarrow> fst (drivers w ! 0))\<rparr>"
      and s: "sameWorld w w'"
    by blast
  have 1: "deviceId p' = - 1 \<and> device p' = None" by (simp add: p')
  have 2: "drivers w' = drivers w" using s by (simp add: sameWorld_def)
  have 3: "i \<in> fst ` set (drivers w) \<longrightarrow>
              driver p' = getDriver w i \<and> getDriver w i \<noteq> None \<and> driverId p' = i"
    using getDriver_None [of w i] by (auto simp add: p')
  have 4: "i \<notin> fst ` set (drivers w) \<longrightarrow>
              driver p' = Some (snd (drivers w ! 0)) \<and> driverId p' = fst (drivers w ! 0)"
    using getDriver_None [of w i] by (auto simp add: p')
  from r 1 2 3 4 show ?thesis by blast
qed

lemma exWorld_nonempty: "drivers exWorld \<noteq> []"
  by (simp add: exWorld_def)

lemma exOutput_alive: "driverAlive exOutput exWorld"
  by (simp add: driverAlive_def exOutput_def exWorld_def)

theorem Port_setDriverId_binds_witness:
  "drivers exWorld \<noteq> [] \<and> driverAlive exOutput exWorld \<and> deviceId exOutput = 0
   \<and> 2 \<in> fst ` set (drivers exWorld) \<and> 7 \<notin> fst ` set (drivers exWorld)
   \<and> (\<exists>p' w'. Port_setDriverId 9 2 (exOutput, exWorld) = Some (p', w') \<and>
         deviceId p' = - 1 \<and> device p' = None \<and> driver p' = Some 200 \<and> driverId p' = 2)
   \<and> (\<exists>p' w'. Port_setDriverId 9 7 (exOutput, exWorld) = Some (p', w') \<and>
         deviceId p' = - 1 \<and> device p' = None \<and> driver p' = Some 100 \<and> driverId p' = 1)"
proof -
  have a: "2 \<in> fst ` set (drivers exWorld)" and b: "7 \<notin> fst ` set (drivers exWorld)"
    and c: "deviceId exOutput = 0"
    by (simp_all add: exWorld_def exOutput_def)
  have g: "getDriver exWorld 2 = Some 200" by (simp add: getDriver_def exWorld_def)
  have f: "drivers exWorld ! 0 = (1, 100)" by (simp add: exWorld_def)
  from Port_setDriverId_binds [OF exWorld_nonempty exOutput_alive, of 9 2] a g
  have 1: "\<exists>p' w'. Port_setDriverId 9 2 (exOutput, exWorld) = Some (p', w') \<and>
         deviceId p' = - 1 \<and> device p' = None \<and> driver p' = Some 200 \<and> driverId p' = 2"
    by auto
  from Port_setDriverId_binds [OF exWorld_nonempty exOutput_alive, of 9 7] b f
  have 2: "\<exists>p' w'. Port_setDriverId 9 7 (exOutput, exWorld) = Some (p', w') \<and>
         deviceId p' = - 1 \<and> device p' = None \<and> driver p' = Some 100 \<and> driverId p' = 1"
    by auto
  from exWorld_nonempty exOutput_alive a b c 1 2 show ?thesis by simp
qed

subsection \<open>Binding a device\<close>

lemma isSubscribed_WARN: "isSubscribed k this (WARN l w) dp dev = isSubscribed k this w dp dev"
  by (simp add: isSubscribed_def WARN_def)

lemma destroyDevice_Input_subscriptions:
  assumes a: "driverAlive p w"
  shows "\<exists>w'. destroyDevice unsubscribeInput dir this (p, w) = Some (p\<lparr>device := None, deviceId := - 1\<rparr>, w')
           \<and> sameWorld w w'
           \<and> (\<forall>dp' dev'. isSubscribed Input this w' dp' dev' \<longleftrightarrow>
                isSubscribed Input this w dp' dev' \<and> \<not> (driver p = Some dp' \<and> deviceId p = dev' \<and> 0 \<le> sint dev'))"
proof (cases "driver p")
  case None
  then show ?thesis by (simp add: destroyDevice_def sameWorld_refl)
next
  case (Some dp)
  with a obtain drv where drv: "driverObjs w dp = Some drv"
    by (auto simp add: driverAlive_def)
  show ?thesis
  proof (cases "0 \<le> sint (deviceId p)")
    case False
    with Some show ?thesis by (auto simp add: destroyDevice_def sameWorld_refl)
  next
    case True
    show ?thesis
    proof (cases "inputDevices drv (deviceId p)")
      case (Inl e)
      then have u: "unsubscribeInput (deviceId p) this drv = Inl e"
        by (simp add: unsubscribeInput_def)
      have "\<not> isSubscribed Input this w dp (deviceId p)"
        using drv Inl by (simp add: isSubscribed_def)
      with Some drv True u show ?thesis
        by (auto simp add: destroyDevice_def sameWorld_WARN isSubscribed_WARN)
    next
      case (Inr d)
      define drv' where "drv' = drv\<lparr>inputDevices := (inputDevices drv)(deviceId p := Inr (InputDevice_unsubscribe this d))\<rparr>"
      define w' where "w' = w\<lparr>driverObjs := (driverObjs w)(dp \<mapsto> drv')\<rparr>"
      from Inr have u: "unsubscribeInput (deviceId p) this drv = Inr drv'"
        by (simp add: unsubscribeInput_def drv'_def)
      have r: "destroyDevice unsubscribeInput dir this (p, w) = Some (p\<lparr>device := None, deviceId := - 1\<rparr>, w')"
        using Some drv True u by (simp add: destroyDevice_def w'_def)
      have s: "sameWorld w w'"
        unfolding w'_def by (rule sameWorld_update [OF drv unsubscribeInput_same [OF u]])
      have i: "isSubscribed Input this w' dp' dev' \<longleftrightarrow>
                isSubscribed Input this w dp' dev' \<and> \<not> (driver p = Some dp' \<and> deviceId p = dev' \<and> 0 \<le> sint dev')"
        for dp' dev'
        using Some drv True Inr
        by (auto simp add: isSubscribed_def w'_def drv'_def InputDevice_unsubscribe_def
              split: option.splits sum.splits if_splits)
      from r s i show ?thesis by blast
    qed
  qed
qed

lemma createDevice_Input_subscriptions:
  assumes p: "driver p = Some dp" and drv: "driverObjs w dp = Some drv"
    and d: "inputDevices drv x = Inr dx" and x: "0 \<le> sint x"
  shows "\<exists>w'. createDevice subscribeInput dir this x (p, w) = Some (p\<lparr>device := Some (dp, x), deviceId := x\<rparr>, w')
           \<and> sameWorld w w'
           \<and> (\<forall>dp' dev'. isSubscribed Input this w' dp' dev' \<longleftrightarrow>
                isSubscribed Input this w dp' dev' \<or> (dp' = dp \<and> dev' = x))"
proof -
  define drv' where "drv' = drv\<lparr>inputDevices := (inputDevices drv)(x := Inr (InputDevice_subscribe this dx))\<rparr>"
  define w' where "w' = w\<lparr>driverObjs := (driverObjs w)(dp \<mapsto> drv')\<rparr>"
  from d have u: "subscribeInput x this drv = Inr drv'"
    by (simp add: subscribeInput_def drv'_def)
  have r: "createDevice subscribeInput dir this x (p, w) = Some (p\<lparr>device := Some (dp, x), deviceId := x\<rparr>, w')"
    using p drv x u by (simp add: createDevice_def w'_def)
  have s: "sameWorld w w'"
    unfolding w'_def by (rule sameWorld_update [OF drv subscribeInput_same [OF u]])
  have i: "isSubscribed Input this w' dp' dev' \<longleftrightarrow> isSubscribed Input this w dp' dev' \<or> (dp' = dp \<and> dev' = x)"
    for dp' dev'
    using drv d
    by (auto simp add: isSubscribed_def w'_def drv'_def InputDevice_subscribe_def
          split: option.splits sum.splits if_splits)
  from r s i show ?thesis by blast
qed

lemma sameDriver_inputDevice:
  "sameDriver drv drv' \<Longrightarrow> inputDevices drv x = Inr d \<Longrightarrow>
   \<exists>d'. inputDevices drv' x = Inr d' \<and> inName d' = inName d"
proof -
  assume s: "sameDriver drv drv'" and d: "inputDevices drv x = Inr d"
  from s have "sameInputDevice (inputDevices drv x) (inputDevices drv' x)"
    by (simp add: sameDriver_def)
  with d show ?thesis
    by (cases "inputDevices drv' x") (simp_all add: sameInputDevice_def)
qed

lemma Input_setDeviceId_binds:
  assumes k: "kind p = Input" and p: "driver p = Some dp" and drv: "driverObjs w dp = Some drv"
    and d: "inputDevices drv x = Inr dx" and x: "0 \<le> sint x"
  shows "\<exists>w'. Port_setDeviceId this x (p, w) = Some (p\<lparr>device := Some (dp, x), deviceId := x\<rparr>, w')
           \<and> sameWorld w w'
           \<and> (\<forall>dp' dev'. isSubscribed Input this w' dp' dev' \<longleftrightarrow>
                (isSubscribed Input this w dp' dev' \<and> \<not> (dp' = dp \<and> deviceId p = dev' \<and> 0 \<le> sint dev'))
                \<or> (dp' = dp \<and> dev' = x))"
proof -
  have a: "driverAlive p w" using p drv by (simp add: driverAlive_def)
  from destroyDevice_Input_subscriptions [OF a, of "''input''" this] obtain w1
    where r1: "destroyDevice unsubscribeInput ''input'' this (p, w) = Some (p\<lparr>device := None, deviceId := - 1\<rparr>, w1)"
      and s1: "sameWorld w w1"
      and i1: "\<And>dp' dev'. isSubscribed Input this w1 dp' dev' \<longleftrightarrow>
                isSubscribed Input this w dp' dev' \<and> \<not> (driver p = Some dp' \<and> deviceId p = dev' \<and> 0 \<le> sint dev')"
    by blast
  from sameWorld_driverObjs [OF s1 drv] obtain drv1
    where drv1: "driverObjs w1 dp = Some drv1" and sd: "sameDriver drv drv1" by blast
  from sameDriver_inputDevice [OF sd d] obtain dx1 where d1: "inputDevices drv1 x = Inr dx1"
    by blast
  have p1: "driver (p\<lparr>device := None, deviceId := - 1\<rparr>) = Some dp" using p by simp
  from createDevice_Input_subscriptions [OF p1 drv1 d1 x, of "''input''" this] obtain w'
    where r2: "createDevice subscribeInput ''input'' this x (p\<lparr>device := None, deviceId := - 1\<rparr>, w1)
                 = Some (p\<lparr>device := Some (dp, x), deviceId := x\<rparr>, w')"
      and s2: "sameWorld w1 w'"
      and i2: "\<And>dp' dev'. isSubscribed Input this w' dp' dev' \<longleftrightarrow>
                isSubscribed Input this w1 dp' dev' \<or> (dp' = dp \<and> dev' = x)"
    by auto
  have r: "Port_setDeviceId this x (p, w) = Some (p\<lparr>device := Some (dp, x), deviceId := x\<rparr>, w')"
    using k r1 r2 by (simp add: Port_setDeviceId_def Input_setDeviceId_def)
  have s: "sameWorld w w'" by (rule sameWorld_trans [OF s1 s2])
  have i: "\<forall>dp' dev'. isSubscribed Input this w' dp' dev' \<longleftrightarrow>
                (isSubscribed Input this w dp' dev' \<and> \<not> (dp' = dp \<and> deviceId p = dev' \<and> 0 \<le> sint dev'))
                \<or> (dp' = dp \<and> dev' = x)"
    using i1 i2 p by auto
  from r s i show ?thesis by blast
qed

lemma destroyDevice_Output_subscriptions:
  assumes a: "driverAlive p w"
  shows "\<exists>w'. destroyDevice unsubscribeOutput dir this (p, w) = Some (p\<lparr>device := None, deviceId := - 1\<rparr>, w')
           \<and> sameWorld w w'
           \<and> (\<forall>dp' dev'. isSubscribed Output this w' dp' dev' \<longleftrightarrow>
                isSubscribed Output this w dp' dev' \<and> \<not> (driver p = Some dp' \<and> deviceId p = dev' \<and> 0 \<le> sint dev'))"
proof (cases "driver p")
  case None
  then show ?thesis by (simp add: destroyDevice_def sameWorld_refl)
next
  case (Some dp)
  with a obtain drv where drv: "driverObjs w dp = Some drv"
    by (auto simp add: driverAlive_def)
  show ?thesis
  proof (cases "0 \<le> sint (deviceId p)")
    case False
    with Some show ?thesis by (auto simp add: destroyDevice_def sameWorld_refl)
  next
    case True
    show ?thesis
    proof (cases "outputDevices drv (deviceId p)")
      case (Inl e)
      then have u: "unsubscribeOutput (deviceId p) this drv = Inl e"
        by (simp add: unsubscribeOutput_def)
      have "\<not> isSubscribed Output this w dp (deviceId p)"
        using drv Inl by (simp add: isSubscribed_def)
      with Some drv True u show ?thesis
        by (auto simp add: destroyDevice_def sameWorld_WARN isSubscribed_WARN)
    next
      case (Inr d)
      define drv' where "drv' = drv\<lparr>outputDevices := (outputDevices drv)(deviceId p := Inr (OutputDevice_unsubscribe this d))\<rparr>"
      define w' where "w' = w\<lparr>driverObjs := (driverObjs w)(dp \<mapsto> drv')\<rparr>"
      from Inr have u: "unsubscribeOutput (deviceId p) this drv = Inr drv'"
        by (simp add: unsubscribeOutput_def drv'_def)
      have r: "destroyDevice unsubscribeOutput dir this (p, w) = Some (p\<lparr>device := None, deviceId := - 1\<rparr>, w')"
        using Some drv True u by (simp add: destroyDevice_def w'_def)
      have s: "sameWorld w w'"
        unfolding w'_def by (rule sameWorld_update [OF drv unsubscribeOutput_same [OF u]])
      have i: "isSubscribed Output this w' dp' dev' \<longleftrightarrow>
                isSubscribed Output this w dp' dev' \<and> \<not> (driver p = Some dp' \<and> deviceId p = dev' \<and> 0 \<le> sint dev')"
        for dp' dev'
        using Some drv True Inr
        by (auto simp add: isSubscribed_def w'_def drv'_def OutputDevice_unsubscribe_def
              split: option.splits sum.splits if_splits)
      from r s i show ?thesis by blast
    qed
  qed
qed

lemma createDevice_Output_subscriptions:
  assumes p: "driver p = Some dp" and drv: "driverObjs w dp = Some drv"
    and d: "outputDevices drv x = Inr dx" and x: "0 \<le> sint x"
  shows "\<exists>w'. createDevice subscribeOutput dir this x (p, w) = Some (p\<lparr>device := Some (dp, x), deviceId := x\<rparr>, w')
           \<and> sameWorld w w'
           \<and> (\<forall>dp' dev'. isSubscribed Output this w' dp' dev' \<longleftrightarrow>
                isSubscribed Output this w dp' dev' \<or> (dp' = dp \<and> dev' = x))"
proof -
  define drv' where "drv' = drv\<lparr>outputDevices := (outputDevices drv)(x := Inr (OutputDevice_subscribe this dx))\<rparr>"
  define w' where "w' = w\<lparr>driverObjs := (driverObjs w)(dp \<mapsto> drv')\<rparr>"
  from d have u: "subscribeOutput x this drv = Inr drv'"
    by (simp add: subscribeOutput_def drv'_def)
  have r: "createDevice subscribeOutput dir this x (p, w) = Some (p\<lparr>device := Some (dp, x), deviceId := x\<rparr>, w')"
    using p drv x u by (simp add: createDevice_def w'_def)
  have s: "sameWorld w w'"
    unfolding w'_def by (rule sameWorld_update [OF drv subscribeOutput_same [OF u]])
  have i: "isSubscribed Output this w' dp' dev' \<longleftrightarrow> isSubscribed Output this w dp' dev' \<or> (dp' = dp \<and> dev' = x)"
    for dp' dev'
    using drv d
    by (auto simp add: isSubscribed_def w'_def drv'_def OutputDevice_subscribe_def
          split: option.splits sum.splits if_splits)
  from r s i show ?thesis by blast
qed

lemma sameDriver_outputDevice:
  "sameDriver drv drv' \<Longrightarrow> outputDevices drv x = Inr d \<Longrightarrow>
   \<exists>d'. outputDevices drv' x = Inr d' \<and> outName d' = outName d"
proof -
  assume s: "sameDriver drv drv'" and d: "outputDevices drv x = Inr d"
  from s have "sameOutputDevice (outputDevices drv x) (outputDevices drv' x)"
    by (simp add: sameDriver_def)
  with d show ?thesis
    by (cases "outputDevices drv' x") (simp_all add: sameOutputDevice_def)
qed

lemma Output_setDeviceId_binds:
  assumes k: "kind p = Output" and p: "driver p = Some dp" and drv: "driverObjs w dp = Some drv"
    and d: "outputDevices drv x = Inr dx" and x: "0 \<le> sint x"
  shows "\<exists>w'. Port_setDeviceId this x (p, w) = Some (p\<lparr>device := Some (dp, x), deviceId := x\<rparr>, w')
           \<and> sameWorld w w'
           \<and> (\<forall>dp' dev'. isSubscribed Output this w' dp' dev' \<longleftrightarrow>
                (isSubscribed Output this w dp' dev' \<and> \<not> (dp' = dp \<and> deviceId p = dev' \<and> 0 \<le> sint dev'))
                \<or> (dp' = dp \<and> dev' = x))"
proof -
  have a: "driverAlive p w" using p drv by (simp add: driverAlive_def)
  from destroyDevice_Output_subscriptions [OF a, of "''output''" this] obtain w1
    where r1: "destroyDevice unsubscribeOutput ''output'' this (p, w) = Some (p\<lparr>device := None, deviceId := - 1\<rparr>, w1)"
      and s1: "sameWorld w w1"
      and i1: "\<And>dp' dev'. isSubscribed Output this w1 dp' dev' \<longleftrightarrow>
                isSubscribed Output this w dp' dev' \<and> \<not> (driver p = Some dp' \<and> deviceId p = dev' \<and> 0 \<le> sint dev')"
    by blast
  from sameWorld_driverObjs [OF s1 drv] obtain drv1
    where drv1: "driverObjs w1 dp = Some drv1" and sd: "sameDriver drv drv1" by blast
  from sameDriver_outputDevice [OF sd d] obtain dx1 where d1: "outputDevices drv1 x = Inr dx1"
    by blast
  have p1: "driver (p\<lparr>device := None, deviceId := - 1\<rparr>) = Some dp" using p by simp
  from createDevice_Output_subscriptions [OF p1 drv1 d1 x, of "''output''" this] obtain w'
    where r2: "createDevice subscribeOutput ''output'' this x (p\<lparr>device := None, deviceId := - 1\<rparr>, w1)
                 = Some (p\<lparr>device := Some (dp, x), deviceId := x\<rparr>, w')"
      and s2: "sameWorld w1 w'"
      and i2: "\<And>dp' dev'. isSubscribed Output this w' dp' dev' \<longleftrightarrow>
                isSubscribed Output this w1 dp' dev' \<or> (dp' = dp \<and> dev' = x)"
    by auto
  have r: "Port_setDeviceId this x (p, w) = Some (p\<lparr>device := Some (dp, x), deviceId := x\<rparr>, w')"
    using k r1 r2 by (simp add: Port_setDeviceId_def Output_setDeviceId_def)
  have s: "sameWorld w w'" by (rule sameWorld_trans [OF s1 s2])
  have i: "\<forall>dp' dev'. isSubscribed Output this w' dp' dev' \<longleftrightarrow>
                (isSubscribed Output this w dp' dev' \<and> \<not> (dp' = dp \<and> deviceId p = dev' \<and> 0 \<le> sint dev'))
                \<or> (dp' = dp \<and> dev' = x)"
    using i1 i2 p by auto
  from r s i show ?thesis by blast
qed

lemma sameDriver_deviceOpens: "sameDriver drv drv' \<Longrightarrow> deviceOpens k drv' x = deviceOpens k drv x"
proof -
  assume s: "sameDriver drv drv'"
  then have i: "sameInputDevice (inputDevices drv x) (inputDevices drv' x)"
    and out: "sameOutputDevice (outputDevices drv x) (outputDevices drv' x)"
    by (simp_all add: sameDriver_def)
  show ?thesis
  proof (cases k)
    case Input
    with i show ?thesis
      by (auto simp add: deviceOpens_def sameInputDevice_def split: sum.splits)
  next
    case Output
    with out show ?thesis
      by (auto simp add: deviceOpens_def sameOutputDevice_def split: sum.splits)
  qed
qed

lemma Port_setDeviceId_binds:
  assumes p: "driver p = Some dp" and drv: "driverObjs w dp = Some drv"
    and d: "deviceOpens (kind p) drv x" and x: "0 \<le> sint x"
  shows "\<exists>w'. Port_setDeviceId this x (p, w) = Some (p\<lparr>device := Some (dp, x), deviceId := x\<rparr>, w')
           \<and> sameWorld w w'
           \<and> (\<forall>dp' dev'. isSubscribed (kind p) this w' dp' dev' \<longleftrightarrow>
                (isSubscribed (kind p) this w dp' dev' \<and> \<not> (dp' = dp \<and> deviceId p = dev' \<and> 0 \<le> sint dev'))
                \<or> (dp' = dp \<and> dev' = x))"
proof (cases "kind p")
  case Input
  with d obtain dx where dx: "inputDevices drv x = Inr dx"
    by (auto simp add: deviceOpens_def split: sum.splits)
  from Input_setDeviceId_binds [OF Input p drv dx x, of this] Input show ?thesis by simp
next
  case Output
  with d obtain dx where dx: "outputDevices drv x = Inr dx"
    by (auto simp add: deviceOpens_def split: sum.splits)
  from Output_setDeviceId_binds [OF Output p drv dx x, of this] Output show ?thesis by simp
qed

text \<open>
  C2. A port, input or output, with a driver bound whose devices \<open>a\<close> and \<open>b\<close> (of the
  port's direction) can be opened, \<open>a \<noteq> b\<close>, both not negative, and which is in no
  subscriber set but that of its bound device: after \<open>setDeviceId(a)\<close> and then
  \<open>setDeviceId(b)\<close> the port is bound to device \<open>b\<close>, it is in the subscriber set of device
  \<open>b\<close> of its driver and in no other, and so not in that of device \<open>a\<close>.
\<close>

theorem Port_setDeviceId_rebinds:
  assumes "driver p = Some dp" and "driverObjs w dp = Some drv"
    and "deviceOpens (kind p) drv a" and "deviceOpens (kind p) drv b"
    and "a \<noteq> b" and "0 \<le> sint a" and "0 \<le> sint b"
    and "\<forall>dp' dev'. isSubscribed (kind p) this w dp' dev' \<longrightarrow>
           dp' = dp \<and> dev' = deviceId p \<and> 0 \<le> sint dev'"
  shows "\<exists>p' w'. (Port_setDeviceId this a (p, w) \<bind> Port_setDeviceId this b) = Some (p', w') \<and>
           deviceId p' = b \<and> device p' = Some (dp, b) \<and>
           (\<forall>dp' dev'. isSubscribed (kind p) this w' dp' dev' \<longleftrightarrow> dp' = dp \<and> dev' = b) \<and>
           \<not> isSubscribed (kind p) this w' dp a"
proof -
  from Port_setDeviceId_binds [OF assms(1,2,3,6), of this] obtain w1
    where r1: "Port_setDeviceId this a (p, w) = Some (p\<lparr>device := Some (dp, a), deviceId := a\<rparr>, w1)"
      and s1: "sameWorld w w1"
      and i1: "\<And>dp' dev'. isSubscribed (kind p) this w1 dp' dev' \<longleftrightarrow>
                (isSubscribed (kind p) this w dp' dev' \<and> \<not> (dp' = dp \<and> deviceId p = dev' \<and> 0 \<le> sint dev'))
                \<or> (dp' = dp \<and> dev' = a)"
    by blast
  define p1 where "p1 = p\<lparr>device := Some (dp, a), deviceId := a\<rparr>"
  from sameWorld_driverObjs [OF s1 assms(2)] obtain drv1
    where drv1: "driverObjs w1 dp = Some drv1" and sd: "sameDriver drv drv1" by blast
  have k1: "kind p1 = kind p" and dr1: "driver p1 = Some dp" and di1: "deviceId p1 = a"
    using assms(1) by (simp_all add: p1_def)
  have d1: "deviceOpens (kind p1) drv1 b"
    using assms(4) by (simp add: k1 sameDriver_deviceOpens [OF sd])
  from Port_setDeviceId_binds [OF dr1 drv1 d1 assms(7), of this] obtain w'
    where r2: "Port_setDeviceId this b (p1, w1) = Some (p1\<lparr>device := Some (dp, b), deviceId := b\<rparr>, w')"
      and i2: "\<And>dp' dev'. isSubscribed (kind p) this w' dp' dev' \<longleftrightarrow>
                (isSubscribed (kind p) this w1 dp' dev' \<and> \<not> (dp' = dp \<and> deviceId p1 = dev' \<and> 0 \<le> sint dev'))
                \<or> (dp' = dp \<and> dev' = b)"
    unfolding k1 by blast
  have r: "(Port_setDeviceId this a (p, w) \<bind> Port_setDeviceId this b)
             = Some (p1\<lparr>device := Some (dp, b), deviceId := b\<rparr>, w')"
    using r1 r2 by (simp add: p1_def)
  have i: "\<forall>dp' dev'. isSubscribed (kind p) this w' dp' dev' \<longleftrightarrow> dp' = dp \<and> dev' = b"
    using i1 i2 di1 assms(6,8) by auto
  with assms(5) have n: "\<not> isSubscribed (kind p) this w' dp a" by simp
  from r i n show ?thesis by simp
qed

lemma exWorld_no_subscriptions:
  "\<forall>dp' dev'. isSubscribed Input 9 exWorld dp' dev' \<longrightarrow> dp' = 100 \<and> dev' = deviceId exInput \<and> 0 \<le> sint dev'"
  by (simp add: isSubscribed_def exWorld_def exDriver_def)

lemma exOutWorld_subscriptions:
  "\<forall>dp' dev'. isSubscribed Output 9 exOutWorld dp' dev' \<longrightarrow> dp' = 100 \<and> dev' = deviceId exOutput \<and> 0 \<le> sint dev'"
  by (simp add: isSubscribed_def exOutWorld_def exOutDriver_def exWorld_def exDriver_def exOutput_def)

theorem Port_setDeviceId_rebinds_witness:
  "kind exInput = Input \<and> driver exInput = Some 100 \<and> driverObjs exWorld 100 = Some exDriver
   \<and> deviceOpens Input exDriver 0 \<and> deviceOpens Input exDriver 1
   \<and> (0 :: cint) \<noteq> 1 \<and> 0 \<le> sint (0 :: cint) \<and> 0 \<le> sint (1 :: cint)
   \<and> \<not> isSubscribed Input 9 exWorld 100 0 \<and> \<not> isSubscribed Input 9 exWorld 100 1
   \<and> (\<exists>p' w'. (Port_setDeviceId 9 0 (exInput, exWorld) \<bind> Port_setDeviceId 9 1) = Some (p', w') \<and>
         deviceId p' = 1 \<and> device p' = Some (100, 1) \<and>
         isSubscribed Input 9 w' 100 1 \<and> \<not> isSubscribed Input 9 w' 100 0 \<and> \<not> isSubscribed Input 9 w' 200 1)
   \<and> kind exOutput = Output \<and> driver exOutput = Some 100 \<and> driverObjs exOutWorld 100 = Some exOutDriver
   \<and> deviceOpens Output exOutDriver 0 \<and> deviceOpens Output exOutDriver 1
   \<and> isSubscribed Output 9 exOutWorld 100 0 \<and> \<not> isSubscribed Output 9 exOutWorld 100 1
   \<and> (\<exists>p' w'. (Port_setDeviceId 9 0 (exOutput, exOutWorld) \<bind> Port_setDeviceId 9 1) = Some (p', w') \<and>
         deviceId p' = 1 \<and> device p' = Some (100, 1) \<and>
         isSubscribed Output 9 w' 100 1 \<and> \<not> isSubscribed Output 9 w' 100 0)"
proof -
  have k: "kind exInput = Input" and p: "driver exInput = Some 100"
    by (simp_all add: exInput_def)
  have drv: "driverObjs exWorld 100 = Some exDriver" by (simp add: exWorld_def)
  have a: "deviceOpens Input exDriver 0" and b: "deviceOpens Input exDriver 1"
    by (simp_all add: deviceOpens_def exDriver_def)
  have ne: "(0 :: cint) \<noteq> 1" and a0: "0 \<le> sint (0 :: cint)" and b0: "0 \<le> sint (1 :: cint)"
    by simp_all
  have n: "\<not> isSubscribed Input 9 exWorld 100 0 \<and> \<not> isSubscribed Input 9 exWorld 100 1"
    by (simp add: isSubscribed_def exWorld_def exDriver_def)
  from Port_setDeviceId_rebinds [where p = exInput and this = 9, OF p drv _ _ ne a0 b0] k a b
    exWorld_no_subscriptions
  have 1: "\<exists>p' w'. (Port_setDeviceId 9 0 (exInput, exWorld) \<bind> Port_setDeviceId 9 1) = Some (p', w') \<and>
         deviceId p' = 1 \<and> device p' = Some (100, 1) \<and>
         isSubscribed Input 9 w' 100 1 \<and> \<not> isSubscribed Input 9 w' 100 0 \<and> \<not> isSubscribed Input 9 w' 200 1"
    by auto
  have ko: "kind exOutput = Output" and po: "driver exOutput = Some 100"
    by (simp_all add: exOutput_def)
  have drvo: "driverObjs exOutWorld 100 = Some exOutDriver" by (simp add: exOutWorld_def)
  have ao: "deviceOpens Output exOutDriver 0" and bo: "deviceOpens Output exOutDriver 1"
    by (simp_all add: deviceOpens_def exOutDriver_def exDriver_def)
  have no: "isSubscribed Output 9 exOutWorld 100 0 \<and> \<not> isSubscribed Output 9 exOutWorld 100 1"
    by (simp add: isSubscribed_def exOutWorld_def exOutDriver_def exDriver_def)
  from Port_setDeviceId_rebinds [where p = exOutput and this = 9, OF po drvo _ _ ne a0 b0] ko ao bo
    exOutWorld_subscriptions
  have 2: "\<exists>p' w'. (Port_setDeviceId 9 0 (exOutput, exOutWorld) \<bind> Port_setDeviceId 9 1) = Some (p', w') \<and>
         deviceId p' = 1 \<and> device p' = Some (100, 1) \<and>
         isSubscribed Output 9 w' 100 1 \<and> \<not> isSubscribed Output 9 w' 100 0"
    by auto
  from k p drv a b ne a0 b0 n 1 ko po drvo ao bo no 2 show ?thesis by simp
qed

subsection \<open>Saving and loading a port\<close>

lemma int_through_json: "(ucast (scast (x :: cint) :: 64 word) :: cint) = x"
proof (rule bit_word_eqI)
  fix n
  assume "n < LENGTH(32)"
  then show "bit (ucast (scast x :: 64 word) :: cint) n \<longleftrightarrow> bit x n"
    by (cases "n = 31") (auto simp add: bit_simps min_def dest: bit_imp_le_length)
qed

lemma driverObjs_WARN: "driverObjs (WARN l w) = driverObjs w"
  by (simp add: WARN_def)

lemma json_int_restored: "ucast (json_integer_value (JInteger (scast (x :: cint)))) = x"
  by (simp add: json_integer_value_def int_through_json)

lemma c_str_idem: "c_str (c_str s) = c_str s"
  by (simp add: c_str_def)

lemma savedName_c_str: "savedName utf8 s = Some name \<Longrightarrow> c_str name = name"
  by (auto simp add: savedName_def c_str_idem split: option.splits if_splits)

lemma Port_toJson_result:
  assumes "deviceAlive p w"
  shows "\<exists>j. Port_toJson utf8 (p, w) = Some j \<and>
           j ''driver'' = Some (JInteger (scast (driverId p))) \<and>
           j ''channel'' = Some (JInteger (scast (channel p))) \<and>
           j ''deviceName'' = map_option JString (savedName utf8 (p, w))"
proof (cases "device p")
  case None
  then show ?thesis
    by (simp add: Port_toJson_def savedName_def json_object_set_new_def json_integer_def)
next
  case (Some h)
  with assms obtain n where n: "Device_getName (kind p) h w = Some n"
    by (auto simp add: deviceAlive_def)
  show ?thesis
    using Some n
    by (auto simp add: Port_toJson_def savedName_def json_object_set_new_def json_integer_def
          json_string_def Let_def)
qed

lemma getDriver_registered: "getDriver w i = Some d \<Longrightarrow> (i, d) \<in> set (drivers w)"
  unfolding getDriver_def findDriver_Some by auto

lemma registryAlive_D: "registryAlive w \<Longrightarrow> (i, d) \<in> set (drivers w) \<Longrightarrow> driverObjs w d \<noteq> None"
  unfolding registryAlive_def list_all_iff by auto

lemma boundDriver_registered:
  assumes "drivers w \<noteq> []"
  shows "\<exists>d. boundDriver w i = Some d \<and> (boundDriverId w i, d) \<in> set (drivers w)"
proof (cases "getDriver w i")
  case None
  from assms have "drivers w ! 0 \<in> set (drivers w)" by simp
  then have "(fst (drivers w ! 0), snd (drivers w ! 0)) \<in> set (drivers w)" by simp
  with None show ?thesis by (simp add: boundDriver_def boundDriverId_def)
next
  case (Some d)
  with getDriver_registered [OF Some] show ?thesis
    by (simp add: boundDriver_def boundDriverId_def)
qed

lemma boundDriver_alive:
  assumes "drivers w \<noteq> []" "registryAlive w"
  shows "\<exists>d drv. boundDriver w i = Some d \<and> driverObjs w d = Some drv"
  using boundDriver_registered [OF assms(1), of i] registryAlive_D [OF assms(2)]
  by fastforce

lemma Port_setDriverId_bound:
  assumes "drivers w \<noteq> []" "driverAlive p w"
  shows "\<exists>w'. Port_setDriverId this i (p, w) =
           Some (p\<lparr>device := None, deviceId := - 1, driver := boundDriver w i,
                   driverId := boundDriverId w i\<rparr>, w')
         \<and> sameWorld w w'"
  using Port_setDriverId_result [OF assms, of this i]
  by (simp add: boundDriver_def boundDriverId_def)

text \<open>The two \<open>setDriverId\<close> calls at the start of \<open>fromJson\<close>.\<close>

lemma fromJson_drivers:
  assumes n: "drivers w \<noteq> []" and r: "registryAlive w" and a: "driverAlive p w"
  shows "\<exists>p1 w1 w2. Port_setDriverId this (- 1) (p, w) = Some (p1, w1) \<and>
           Port_setDriverId this i (p1, w1) =
             Some (p\<lparr>device := None, deviceId := - 1, driver := boundDriver w i,
                     driverId := boundDriverId w i\<rparr>, w2)
         \<and> sameWorld w w2"
proof -
  define p1 where "p1 = p\<lparr>device := None, deviceId := - 1, driver := boundDriver w (- 1),
                   driverId := boundDriverId w (- 1)\<rparr>"
  from Port_setDriverId_bound [OF n a, of this "- 1"] obtain w1
    where s1: "Port_setDriverId this (- 1) (p, w) = Some (p1, w1)" and w1: "sameWorld w w1"
    unfolding p1_def by blast
  have n1: "drivers w1 \<noteq> []" using n w1 by (simp add: sameWorld_def)
  from boundDriver_alive [OF n r, of "- 1"] obtain d drv
    where d: "boundDriver w (- 1) = Some d" and drv: "driverObjs w d = Some drv" by blast
  have a1: "driverAlive p1 w1"
    using sameWorld_alive [OF w1, of d] d drv by (simp add: driverAlive_def p1_def)
  from Port_setDriverId_bound [OF n1 a1, of this i] obtain w2
    where s2: "Port_setDriverId this i (p1, w1) =
           Some (p1\<lparr>device := None, deviceId := - 1, driver := boundDriver w1 i,
                   driverId := boundDriverId w1 i\<rparr>, w2)"
      and w2: "sameWorld w1 w2"
    by blast
  have b: "boundDriver w1 i = boundDriver w i" "boundDriverId w1 i = boundDriverId w i"
    using w1 sameWorld_getDriver [OF w1, of i]
    by (simp_all add: boundDriver_def boundDriverId_def sameWorld_def split: option.splits)
  have e: "Port_setDriverId this i (p1, w1) =
           Some (p\<lparr>device := None, deviceId := - 1, driver := boundDriver w i,
                   driverId := boundDriverId w i\<rparr>, w2)"
    using s2 by (simp add: p1_def b)
  have "sameWorld w w2" by (rule sameWorld_trans [OF w1 w2])
  with s1 e show ?thesis by blast
qed

lemma Port_getDeviceIds_result:
  assumes "driver p = Some dp" "driverObjs w dp = Some drv"
  shows "\<exists>w'. Port_getDeviceIds (p, w) =
           Some (case (case kind p of Input \<Rightarrow> getInputDeviceIds drv | Output \<Rightarrow> getOutputDeviceIds drv) of
                   Inr ids \<Rightarrow> ids | Inl e \<Rightarrow> [], w')
         \<and> sameWorld w w' \<and> driverObjs w' = driverObjs w"
  using assms
  by (cases "kind p")
     (auto simp add: Port_getDeviceIds_def Input_getDeviceIds_def Output_getDeviceIds_def
        sameWorld_refl sameWorld_WARN driverObjs_WARN split: sum.splits)

lemma Port_getDeviceName_result:
  assumes "driver p = Some dp" "driverObjs w dp = Some drv"
  shows "\<exists>w'. Port_getDeviceName i (p, w) =
           Some (case kind p of
                   Input \<Rightarrow> (case getInputDeviceName drv i of Inr n \<Rightarrow> n | Inl e \<Rightarrow> [])
                 | Output \<Rightarrow> [], w')
         \<and> sameWorld w w' \<and> driverObjs w' = driverObjs w"
  using assms
  by (cases "kind p")
     (auto simp add: Port_getDeviceName_def Input_getDeviceName_def Output_getDeviceName_def
        sameWorld_refl sameWorld_WARN driverObjs_WARN split: sum.splits)

lemma bindByName_same:
  assumes "driver p = Some dp" "driverObjs w dp = Some drv"
  shows "\<exists>p' w'. bindByName this name ids (p, w) = Some (p', w') \<and> samePort p p' \<and> sameWorld w w'"
  using assms(2)
proof (induction ids arbitrary: w)
  case Nil
  show ?case by (simp add: samePort_refl sameWorld_refl)
next
  case (Cons x xs)
  from Port_getDeviceName_result [OF assms(1) Cons.prems, of x] obtain n w1
    where g: "Port_getDeviceName x (p, w) = Some (n, w1)" and s1: "sameWorld w w1"
      and o1: "driverObjs w1 = driverObjs w"
    by blast
  have drv1: "driverObjs w1 dp = Some drv" using o1 Cons.prems by simp
  show ?case
  proof (cases "n = name")
    case True
    have a: "driverAlive p w1" using assms(1) drv1 by (simp add: driverAlive_def)
    from Port_setDeviceId_same [OF a, of this x] obtain p' w'
      where r: "Port_setDeviceId this x (p, w1) = Some (p', w')" and pp: "samePort p p'"
        and ww: "sameWorld w1 w'"
      by blast
    have "bindByName this name (x # xs) (p, w) = Some (p', w')"
      using g True r by simp
    with pp sameWorld_trans [OF s1 ww] show ?thesis by blast
  next
    case False
    from Cons.IH [OF drv1] obtain p' w'
      where r: "bindByName this name xs (p, w1) = Some (p', w')" and pp: "samePort p p'"
        and ww: "sameWorld w1 w'"
      by blast
    have "bindByName this name (x # xs) (p, w) = Some (p', w')"
      using g False r by simp
    with pp sameWorld_trans [OF s1 ww] show ?thesis by blast
  qed
qed

lemma bindByName_finds:
  assumes k: "kind p = Input" and p: "driver p = Some dp"
    and f: "find (\<lambda>i. (case getInputDeviceName drv i of Inr m \<Rightarrow> m | Inl e \<Rightarrow> []) = name) ids = Some dev"
    and d: "inputDevices drv dev = Inr d" and x: "0 \<le> sint dev"
    and drv: "driverObjs w dp = Some drv"
  shows "\<exists>w'. bindByName this name ids (p, w) = Some (p\<lparr>device := Some (dp, dev), deviceId := dev\<rparr>, w')
           \<and> sameWorld w w' \<and> isSubscribed Input this w' dp dev"
  using f drv
proof (induction ids arbitrary: w)
  case Nil
  then show ?case by simp
next
  case (Cons y ys)
  from Port_getDeviceName_result [OF p Cons.prems(2), of y] k obtain w1
    where g: "Port_getDeviceName y (p, w) =
                Some (case getInputDeviceName drv y of Inr n \<Rightarrow> n | Inl e \<Rightarrow> [], w1)"
      and s1: "sameWorld w w1" and o1: "driverObjs w1 = driverObjs w"
    by auto
  have drv1: "driverObjs w1 dp = Some drv" using o1 Cons.prems(2) by simp
  show ?case
  proof (cases "(case getInputDeviceName drv y of Inr m \<Rightarrow> m | Inl e \<Rightarrow> []) = name")
    case True
    with Cons.prems(1) have y: "y = dev" by simp
    from Input_setDeviceId_binds [OF k p drv1 d x, of this] obtain w'
      where r: "Port_setDeviceId this dev (p, w1) = Some (p\<lparr>device := Some (dp, dev), deviceId := dev\<rparr>, w')"
        and ww: "sameWorld w1 w'" and i: "isSubscribed Input this w' dp dev"
      by blast
    have "bindByName this name (y # ys) (p, w) = Some (p\<lparr>device := Some (dp, dev), deviceId := dev\<rparr>, w')"
      using g True r y by simp
    with sameWorld_trans [OF s1 ww] i show ?thesis by blast
  next
    case False
    from False Cons.prems(1)
    have f': "find (\<lambda>i. (case getInputDeviceName drv i of Inr m \<Rightarrow> m | Inl e \<Rightarrow> []) = name) ys = Some dev"
      by simp
    from Cons.IH [OF f' drv1] obtain w'
      where r: "bindByName this name ys (p, w1) = Some (p\<lparr>device := Some (dp, dev), deviceId := dev\<rparr>, w')"
        and ww: "sameWorld w1 w'" and i: "isSubscribed Input this w' dp dev"
      by blast
    have "bindByName this name (y # ys) (p, w) = Some (p\<lparr>device := Some (dp, dev), deviceId := dev\<rparr>, w')"
      using g False r by simp
    with sameWorld_trans [OF s1 ww] i show ?thesis by blast
  qed
qed

lemma bindByName_none:
  assumes k: "kind p = Input" and p: "driver p = Some dp"
    and f: "find (\<lambda>i. (case getInputDeviceName drv i of Inr m \<Rightarrow> m | Inl e \<Rightarrow> []) = name) ids = None"
    and drv: "driverObjs w dp = Some drv"
  shows "\<exists>w'. bindByName this name ids (p, w) = Some (p, w')"
  using f drv
proof (induction ids arbitrary: w)
  case Nil
  then show ?case by simp
next
  case (Cons y ys)
  from Port_getDeviceName_result [OF p Cons.prems(2), of y] k obtain w1
    where g: "Port_getDeviceName y (p, w) =
                Some (case getInputDeviceName drv y of Inr n \<Rightarrow> n | Inl e \<Rightarrow> [], w1)"
      and o1: "driverObjs w1 = driverObjs w"
    by auto
  have drv1: "driverObjs w1 dp = Some drv" using o1 Cons.prems(2) by simp
  from Cons.prems(1)
  have ny: "(case getInputDeviceName drv y of Inr m \<Rightarrow> m | Inl e \<Rightarrow> []) \<noteq> name"
    and f': "find (\<lambda>i. (case getInputDeviceName drv i of Inr m \<Rightarrow> m | Inl e \<Rightarrow> []) = name) ys = None"
    by (simp_all split: if_splits)
  from Cons.IH [OF f' drv1] obtain w'
    where r: "bindByName this name ys (p, w1) = Some (p, w')" by blast
  have "bindByName this name (y # ys) (p, w) = Some (p, w')"
    using g ny r by simp
  then show ?case by blast
qed

lemma fromJson_unfold:
  assumes "j ''driver'' = Some (JInteger (scast i))" and "j ''channel'' = Some (JInteger (scast c))"
    and "j ''deviceName'' = map_option JString nm"
    and "Port_setDriverId this (- 1) s = Some s1" and "Port_setDriverId this i s1 = Some (p2, w2)"
    and "driver p2 \<noteq> None"
  shows "Port_fromJson this j s =
           (case nm of
              None \<Rightarrow> Some (p2\<lparr>channel := c\<rparr>, w2)
            | Some name \<Rightarrow>
                (case Port_getDeviceIds (p2, w2) of
                   None \<Rightarrow> None
                 | Some (ids, w3) \<Rightarrow>
                     (case bindByName this (c_str name) ids (p2, w3) of
                        None \<Rightarrow> None
                      | Some s3 \<Rightarrow> Some ((fst s3)\<lparr>channel := c\<rparr>, snd s3))))"
  using assms
  by (cases nm)
     (auto simp add: Port_fromJson_def json_int_restored json_string_value_def Let_def
        split: option.splits prod.splits)

text \<open>
  What the round trip computes: the two \<open>setDriverId\<close> calls leave the loading port
  unbound under the driver of the saved id, or the first one; then the search for the
  saved name runs, if one was saved; then the channel is set.
\<close>

lemma roundTrip_unfold:
  assumes n: "drivers w' \<noteq> []" and r: "registryAlive w'" and a: "driverAlive q w'"
    and da: "deviceAlive p w"
  shows "\<exists>w2. sameWorld w' w2 \<and>
           roundTrip utf8 this (p, w) (q, w') =
             (case savedName utf8 (p, w) of
                None \<Rightarrow> Some (q\<lparr>device := None, deviceId := - 1, driver := boundDriver w' (driverId p),
                                driverId := boundDriverId w' (driverId p), channel := channel p\<rparr>, w2)
              | Some name \<Rightarrow>
                  (case Port_getDeviceIds
                          (q\<lparr>device := None, deviceId := - 1, driver := boundDriver w' (driverId p),
                             driverId := boundDriverId w' (driverId p)\<rparr>, w2) of
                     None \<Rightarrow> None
                   | Some (ids, w3) \<Rightarrow>
                       (case bindByName this name ids
                               (q\<lparr>device := None, deviceId := - 1, driver := boundDriver w' (driverId p),
                                  driverId := boundDriverId w' (driverId p)\<rparr>, w3) of
                          None \<Rightarrow> None
                        | Some s3 \<Rightarrow> Some ((fst s3)\<lparr>channel := channel p\<rparr>, snd s3))))"
proof -
  define p2 where "p2 = q\<lparr>device := None, deviceId := - 1, driver := boundDriver w' (driverId p),
                     driverId := boundDriverId w' (driverId p)\<rparr>"
  from Port_toJson_result [OF da, of utf8] obtain j
    where j: "Port_toJson utf8 (p, w) = Some j"
      and j1: "j ''driver'' = Some (JInteger (scast (driverId p)))"
      and j2: "j ''channel'' = Some (JInteger (scast (channel p)))"
      and j3: "j ''deviceName'' = map_option JString (savedName utf8 (p, w))"
    by blast
  from fromJson_drivers [OF n r a, of this "driverId p"] obtain p1 w1 w2
    where s1: "Port_setDriverId this (- 1) (q, w') = Some (p1, w1)"
      and s2: "Port_setDriverId this (driverId p) (p1, w1) = Some (p2, w2)"
      and w2: "sameWorld w' w2"
    unfolding p2_def by blast
  from boundDriver_alive [OF n r, of "driverId p"] obtain dp
    where b: "boundDriver w' (driverId p) = Some dp" by blast
  have d2': "driver p2 \<noteq> None" by (simp add: p2_def b)
  note u = fromJson_unfold [OF j1 j2 j3 s1 s2 d2']
  have "roundTrip utf8 this (p, w) (q, w') =
          (case savedName utf8 (p, w) of
             None \<Rightarrow> Some (p2\<lparr>channel := channel p\<rparr>, w2)
           | Some name \<Rightarrow>
               (case Port_getDeviceIds (p2, w2) of
                  None \<Rightarrow> None
                | Some (ids, w3) \<Rightarrow>
                    (case bindByName this name ids (p2, w3) of
                       None \<Rightarrow> None
                     | Some s3 \<Rightarrow> Some ((fst s3)\<lparr>channel := channel p\<rparr>, snd s3))))"
  proof (cases "savedName utf8 (p, w)")
    case None
    with u j show ?thesis by (simp add: roundTrip_def)
  next
    case (Some name)
    from u have "Port_fromJson this j (q, w') =
               (case Port_getDeviceIds (p2, w2) of
                  None \<Rightarrow> None
                | Some (ids, w3) \<Rightarrow>
                    (case bindByName this name ids (p2, w3) of
                       None \<Rightarrow> None
                     | Some s3 \<Rightarrow> Some ((fst s3)\<lparr>channel := channel p\<rparr>, snd s3)))"
      unfolding Some option.case savedName_c_str [OF Some] by simp
    with j Some show ?thesis by (simp add: roundTrip_def)
  qed
  with w2 show ?thesis unfolding p2_def by auto
qed

lemma roundTrip_general:
  assumes n: "drivers w' \<noteq> []" and r: "registryAlive w'" and a: "driverAlive q w'"
    and da: "deviceAlive p w"
  shows "\<exists>p' w''. roundTrip utf8 this (p, w) (q, w') = Some (p', w'') \<and> kind p' = kind q \<and>
           channel p' = channel p \<and>
           driver p' = boundDriver w' (driverId p) \<and> driverId p' = boundDriverId w' (driverId p) \<and>
           (savedName utf8 (p, w) = None \<longrightarrow> device p' = None \<and> deviceId p' = - 1)"
proof -
  define p2 where "p2 = q\<lparr>device := None, deviceId := - 1, driver := boundDriver w' (driverId p),
                     driverId := boundDriverId w' (driverId p)\<rparr>"
  from roundTrip_unfold [OF n r a da, of utf8 this] obtain w2
    where w2: "sameWorld w' w2"
      and u: "roundTrip utf8 this (p, w) (q, w') =
          (case savedName utf8 (p, w) of
             None \<Rightarrow> Some (p2\<lparr>channel := channel p\<rparr>, w2)
           | Some name \<Rightarrow>
               (case Port_getDeviceIds (p2, w2) of
                  None \<Rightarrow> None
                | Some (ids, w3) \<Rightarrow>
                    (case bindByName this name ids (p2, w3) of
                       None \<Rightarrow> None
                     | Some s3 \<Rightarrow> Some ((fst s3)\<lparr>channel := channel p\<rparr>, snd s3))))"
    unfolding p2_def by auto
  from boundDriver_alive [OF n r, of "driverId p"] obtain dp drv
    where b: "boundDriver w' (driverId p) = Some dp" and drv: "driverObjs w' dp = Some drv" by blast
  have d2: "driver p2 = Some dp" by (simp add: p2_def b)
  from sameWorld_driverObjs [OF w2 drv] obtain drv2 where drv2: "driverObjs w2 dp = Some drv2"
    by blast
  show ?thesis
  proof (cases "savedName utf8 (p, w)")
    case None
    with u have "roundTrip utf8 this (p, w) (q, w') = Some (p2\<lparr>channel := channel p\<rparr>, w2)"
      by simp
    with None show ?thesis by (simp add: p2_def)
  next
    case (Some name)
    from Port_getDeviceIds_result [OF d2 drv2] obtain ids w3
      where g: "Port_getDeviceIds (p2, w2) = Some (ids, w3)" and o3: "driverObjs w3 = driverObjs w2"
      by blast
    have drv3: "driverObjs w3 dp = Some drv2" using o3 drv2 by simp
    from bindByName_same [OF d2 drv3, of this name ids] obtain p3 w4
      where bn: "bindByName this name ids (p2, w3) = Some (p3, w4)" and pp: "samePort p2 p3"
      by blast
    from u Some g bn have "roundTrip utf8 this (p, w) (q, w') = Some (p3\<lparr>channel := channel p\<rparr>, w4)"
      by simp
    with pp Some show ?thesis by (simp add: samePort_def p2_def)
  qed
qed

lemma sameDriver_names:
  "sameDriver drv drv' \<Longrightarrow> getInputDeviceName drv' = getInputDeviceName drv"
  "sameDriver drv drv' \<Longrightarrow> getInputDeviceIds drv' = getInputDeviceIds drv"
  by (simp_all add: sameDriver_def)

lemma roundTrip_Input:
  assumes n: "drivers w' \<noteq> []" and r: "registryAlive w'" and a: "driverAlive q w'"
    and da: "deviceAlive p w"
    and k: "kind q = Input" and sn: "savedName utf8 (p, w) = Some name"
    and b: "boundDriver w' (driverId p) = Some dp" and drv: "driverObjs w' dp = Some drv"
    and ids: "getInputDeviceIds drv = Inr ids"
  shows "\<exists>p' w''. roundTrip utf8 this (p, w) (q, w') = Some (p', w'') \<and>
           (case find (\<lambda>i. (case getInputDeviceName drv i of Inr m \<Rightarrow> m | Inl e \<Rightarrow> []) = name) ids of
              None \<Rightarrow> device p' = None \<and> deviceId p' = - 1
            | Some dev \<Rightarrow>
                (\<forall>d. inputDevices drv dev = Inr d \<and> 0 \<le> sint dev \<longrightarrow>
                   device p' = Some (dp, dev) \<and> deviceId p' = dev \<and> isSubscribed Input this w'' dp dev))"
proof -
  define p2 where "p2 = q\<lparr>device := None, deviceId := - 1, driver := boundDriver w' (driverId p),
                     driverId := boundDriverId w' (driverId p)\<rparr>"
  from roundTrip_general [OF n r a da, of utf8 this] obtain p' w''
    where rt: "roundTrip utf8 this (p, w) (q, w') = Some (p', w'')" by blast
  from roundTrip_unfold [OF n r a da, of utf8 this] sn obtain w2
    where w2: "sameWorld w' w2"
      and u: "roundTrip utf8 this (p, w) (q, w') =
               (case Port_getDeviceIds (p2, w2) of
                  None \<Rightarrow> None
                | Some (ids, w3) \<Rightarrow>
                    (case bindByName this name ids (p2, w3) of
                       None \<Rightarrow> None
                     | Some s3 \<Rightarrow> Some ((fst s3)\<lparr>channel := channel p\<rparr>, snd s3)))"
    unfolding p2_def by auto
  have d2: "driver p2 = Some dp" and k2: "kind p2 = Input"
    and e2: "device p2 = None" "deviceId p2 = - 1"
    using k by (simp_all add: p2_def b)
  from sameWorld_driverObjs [OF w2 drv] obtain drv2
    where drv2: "driverObjs w2 dp = Some drv2" and sd: "sameDriver drv drv2"
    by blast
  have ids2: "getInputDeviceIds drv2 = Inr ids" using ids by (simp add: sameDriver_names(2) [OF sd])
  from Port_getDeviceIds_result [OF d2 drv2] k2 ids2 obtain w3
    where gi: "Port_getDeviceIds (p2, w2) = Some (ids, w3)" and o3: "driverObjs w3 = driverObjs w2"
    by auto
  have drv3: "driverObjs w3 dp = Some drv2" using o3 drv2 by simp
  have u': "Some (p', w'') =
              (case bindByName this name ids (p2, w3) of
                 None \<Rightarrow> None
               | Some s3 \<Rightarrow> Some ((fst s3)\<lparr>channel := channel p\<rparr>, snd s3))"
    using u rt gi by simp
  have "case find (\<lambda>i. (case getInputDeviceName drv i of Inr m \<Rightarrow> m | Inl e \<Rightarrow> []) = name) ids of
              None \<Rightarrow> device p' = None \<and> deviceId p' = - 1
            | Some dev \<Rightarrow>
                (\<forall>d. inputDevices drv dev = Inr d \<and> 0 \<le> sint dev \<longrightarrow>
                   device p' = Some (dp, dev) \<and> deviceId p' = dev \<and> isSubscribed Input this w'' dp dev)"
  proof (cases "find (\<lambda>i. (case getInputDeviceName drv i of Inr m \<Rightarrow> m | Inl e \<Rightarrow> []) = name) ids")
    case None
    then have f2: "find (\<lambda>i. (case getInputDeviceName drv2 i of Inr m \<Rightarrow> m | Inl e \<Rightarrow> []) = name) ids = None"
      by (simp add: sameDriver_names(1) [OF sd])
    from bindByName_none [OF k2 d2 f2 drv3, of this] obtain w4
      where bn: "bindByName this name ids (p2, w3) = Some (p2, w4)" by blast
    from u' bn have "p' = p2\<lparr>channel := channel p\<rparr>" by simp
    with None e2 show ?thesis by simp
  next
    case (Some dev)
    then have f2: "find (\<lambda>i. (case getInputDeviceName drv2 i of Inr m \<Rightarrow> m | Inl e \<Rightarrow> []) = name) ids = Some dev"
      by (simp add: sameDriver_names(1) [OF sd])
    have "device p' = Some (dp, dev) \<and> deviceId p' = dev \<and> isSubscribed Input this w'' dp dev"
      if h: "inputDevices drv dev = Inr d \<and> 0 \<le> sint dev" for d
    proof -
      from h have d: "inputDevices drv dev = Inr d" and x: "0 \<le> sint dev" by simp_all
      from sameDriver_inputDevice [OF sd d] obtain d' where d': "inputDevices drv2 dev = Inr d'"
        by blast
      from bindByName_finds [OF k2 d2 f2 d' x drv3, of this] obtain w4
        where bn: "bindByName this name ids (p2, w3) = Some (p2\<lparr>device := Some (dp, dev), deviceId := dev\<rparr>, w4)"
          and i: "isSubscribed Input this w4 dp dev"
        by blast
      from u' bn have "p' = p2\<lparr>device := Some (dp, dev), deviceId := dev\<rparr>\<lparr>channel := channel p\<rparr>"
        and "w'' = w4" by simp_all
      with i show ?thesis by simp
    qed
    with Some show ?thesis by simp
  qed
  with rt show ?thesis by blast
qed

text \<open>
  C6, amended. A port \<open>p\<close> is saved in a world \<open>w\<close> where its device pointer is live, and
  the record is loaded into a port \<open>q\<close> (the same one or another) in a world \<open>w'\<close> with a
  driver registered, where the registry's pointers and the driver pointer of \<open>q\<close> refer
  to live objects. Then \<open>fromJson\<close> returns; the channel of \<open>q\<close> is that of \<open>p\<close>; the driver
  id of \<open>q\<close> is that of \<open>p\<close>, with the driver registered under it, when the id is
  registered, and else those of the first registered pair. If \<open>p\<close> had no device, or
  one with an empty name, or one whose name up to the first NUL is refused by the
  UTF-8 check, no name is saved and \<open>q\<close> ends up with no device. Otherwise, for an input
  port \<open>q\<close>, the device ids of its new driver are searched in the order of enumeration
  for the first one that the driver names like the saved name (the bound device's
  name up to its first NUL): \<open>q\<close> is bound and subscribed to that device if it can be
  opened and its id is not negative, and has no device if no id carries the name.
\<close>

theorem roundTrip_restores:
  assumes "deviceAlive p w" and "drivers w' \<noteq> []" and "registryAlive w'" and "driverAlive q w'"
  shows "\<exists>p' w''. roundTrip utf8 this (p, w) (q, w') = Some (p', w'') \<and> channel p' = channel p \<and>
           (driverId p \<in> fst ` set (drivers w') \<longrightarrow>
              driverId p' = driverId p \<and> driver p' = getDriver w' (driverId p)) \<and>
           (driverId p \<notin> fst ` set (drivers w') \<longrightarrow>
              driverId p' = fst (drivers w' ! 0) \<and> driver p' = Some (snd (drivers w' ! 0))) \<and>
           (device p = None \<longrightarrow> device p' = None \<and> deviceId p' = - 1) \<and>
           (device p = Some dv \<and> Device_getName (kind p) dv w = Some nm \<and>
            (nm = [] \<or> \<not> utf8 (c_str nm))
            \<longrightarrow> device p' = None \<and> deviceId p' = - 1) \<and>
           (kind q = Input \<and> device p = Some dv \<and> Device_getName (kind p) dv w = Some nm \<and>
            nm \<noteq> [] \<and> utf8 (c_str nm) \<and>
            driver p' = Some dp \<and> driverObjs w' dp = Some drv \<and> getInputDeviceIds drv = Inr ids
            \<longrightarrow> (case find (\<lambda>i. (case getInputDeviceName drv i of Inr m \<Rightarrow> m | Inl e \<Rightarrow> []) = c_str nm)
                         ids of
                   None \<Rightarrow> device p' = None \<and> deviceId p' = - 1
                 | Some dev \<Rightarrow>
                     (\<forall>d. inputDevices drv dev = Inr d \<and> 0 \<le> sint dev \<longrightarrow>
                        device p' = Some (dp, dev) \<and> deviceId p' = dev \<and>
                        isSubscribed Input this w'' dp dev)))"
proof -
  from roundTrip_general [OF assms(2,3,4,1), of utf8 this] obtain p' w''
    where rt: "roundTrip utf8 this (p, w) (q, w') = Some (p', w'')" and c: "channel p' = channel p"
      and b: "driver p' = boundDriver w' (driverId p)" "driverId p' = boundDriverId w' (driverId p)"
      and e: "savedName utf8 (p, w) = None \<longrightarrow> device p' = None \<and> deviceId p' = - 1"
    by auto
  have 1: "driverId p \<in> fst ` set (drivers w') \<longrightarrow>
              driverId p' = driverId p \<and> driver p' = getDriver w' (driverId p)"
    using getDriver_None [of w' "driverId p"]
    by (auto simp add: b boundDriver_def boundDriverId_def)
  have 2: "driverId p \<notin> fst ` set (drivers w') \<longrightarrow>
              driverId p' = fst (drivers w' ! 0) \<and> driver p' = Some (snd (drivers w' ! 0))"
    using getDriver_None [of w' "driverId p"]
    by (auto simp add: b boundDriver_def boundDriverId_def)
  have 3: "device p = None \<longrightarrow> device p' = None \<and> deviceId p' = - 1"
    using e by (simp add: savedName_def)
  have 4: "device p = Some dv \<and> Device_getName (kind p) dv w = Some nm \<and>
            (nm = [] \<or> \<not> utf8 (c_str nm))
            \<longrightarrow> device p' = None \<and> deviceId p' = - 1"
    using e by (auto simp add: savedName_def)
  have 5: "kind q = Input \<and> device p = Some dv \<and> Device_getName (kind p) dv w = Some nm \<and>
            nm \<noteq> [] \<and> utf8 (c_str nm) \<and>
            driver p' = Some dp \<and> driverObjs w' dp = Some drv \<and> getInputDeviceIds drv = Inr ids
            \<longrightarrow> (case find (\<lambda>i. (case getInputDeviceName drv i of Inr m \<Rightarrow> m | Inl e \<Rightarrow> []) = c_str nm)
                         ids of
                   None \<Rightarrow> device p' = None \<and> deviceId p' = - 1
                 | Some dev \<Rightarrow>
                     (\<forall>d. inputDevices drv dev = Inr d \<and> 0 \<le> sint dev \<longrightarrow>
                        device p' = Some (dp, dev) \<and> deviceId p' = dev \<and>
                        isSubscribed Input this w'' dp dev))"
  proof
    assume h: "kind q = Input \<and> device p = Some dv \<and> Device_getName (kind p) dv w = Some nm \<and>
            nm \<noteq> [] \<and> utf8 (c_str nm) \<and>
            driver p' = Some dp \<and> driverObjs w' dp = Some drv \<and> getInputDeviceIds drv = Inr ids"
    then have sn: "savedName utf8 (p, w) = Some (c_str nm)" by (simp add: savedName_def)
    from h b have bd: "boundDriver w' (driverId p) = Some dp" by simp
    from h have k: "kind q = Input" and drv: "driverObjs w' dp = Some drv"
      and ids: "getInputDeviceIds drv = Inr ids" by simp_all
    from roundTrip_Input [OF assms(2,3,4,1) k sn bd drv ids, of this] rt
    show "case find (\<lambda>i. (case getInputDeviceName drv i of Inr m \<Rightarrow> m | Inl e \<Rightarrow> []) = c_str nm)
                         ids of
                   None \<Rightarrow> device p' = None \<and> deviceId p' = - 1
                 | Some dev \<Rightarrow>
                     (\<forall>d. inputDevices drv dev = Inr d \<and> 0 \<le> sint dev \<longrightarrow>
                        device p' = Some (dp, dev) \<and> deviceId p' = dev \<and>
                        isSubscribed Input this w'' dp dev)"
      by auto
  qed
  from rt c 1 2 3 4 5 show ?thesis
    by - (rule exI [of _ p'], rule exI [of _ w''], intro conjI, assumption+)
qed

lemma exWorldWith_alive:
  "drivers (exWorldWith dev name) \<noteq> []" "registryAlive (exWorldWith dev name)"
  "driverAlive (exBound dev) (exWorldWith dev name)" "deviceAlive (exBound dev) (exWorldWith dev name)"
  by (simp_all add: exWorldWith_def exWorld_def registryAlive_def driverAlive_def deviceAlive_def
        exBound_def exInput_def Device_getName_def exDriverWith_def)

lemma exWorld_alive:
  "drivers exWorld \<noteq> []" "registryAlive exWorld" "driverAlive exFresh exWorld"
  by (simp_all add: exWorld_def registryAlive_def driverAlive_def exFresh_def exInput_def)

lemma exBound_fields:
  "kind (exBound dev) = Input" "driver (exBound dev) = Some 100" "driverId (exBound dev) = 1"
  "device (exBound dev) = Some (100, dev)" "deviceId (exBound dev) = dev" "channel (exBound dev) = 3"
  by (simp_all add: exBound_def exInput_def)

lemma exWorldWith_fields:
  "getDriver (exWorldWith dev name) 1 = Some 100"
  "driverObjs (exWorldWith dev name) 100 = Some (exDriverWith dev name)"
  "inputDevices (exDriverWith dev name) dev = Inr \<lparr>inName = name, inSubscribed = {|9|}\<rparr>"
  "getInputDeviceIds (exDriverWith dev name) = Inr [0, 1, 2]"
  "getInputDeviceName (exDriverWith dev name) = getInputDeviceName exDriver"
  "Device_getName Input (100, dev) (exWorldWith dev name) = Some name"
  by (simp_all add: exWorldWith_def exWorld_def getDriver_def exDriverWith_def exDriver_def
        Device_getName_def)

lemma exWorld_fields:
  "getDriver exWorld 1 = Some 100" "driverObjs exWorld 100 = Some exDriver"
  "getInputDeviceIds exDriver = Inr [0, 1, 2]"
  "inputDevices exDriver 0 = Inr \<lparr>inName = ''Keys'', inSubscribed = {||}\<rparr>"
  "(1 :: cint) \<in> fst ` set (drivers exWorld)"
  by (simp_all add: exWorld_def getDriver_def exDriver_def)

lemma exNames:
  "c_str ''Keys'' = ''Keys''" "exUtf8 ''Keys''" "c_str ''Pad'' = ''Pad''" "exUtf8 ''Pad''"
  by (simp_all add: c_str_def exUtf8_def)

theorem roundTrip_restores_witness:
  "deviceAlive (exBound 0) (exWorldWith 0 ''Keys'') \<and> deviceAlive (exBound 0) (exWorldWith 0 [])
   \<and> drivers exWorld \<noteq> [] \<and> registryAlive exWorld \<and> driverAlive exFresh exWorld
   \<and> kind exFresh = Input \<and> channel exFresh = 0 \<and> driverId exFresh = 2 \<and> driver exFresh = Some 200
   \<and> channel (exBound 0) = 3 \<and> driverId (exBound 0) = 1 \<and> device (exBound 0) = Some (100, 0)
   \<and> Device_getName Input (100, 0) (exWorldWith 0 ''Keys'') = Some ''Keys''
   \<and> Device_getName Input (100, 0) (exWorldWith 0 []) = Some []
   \<and> (\<exists>p' w''. roundTrip exUtf8 9 (exBound 0, exWorldWith 0 ''Keys'') (exFresh, exWorld) = Some (p', w'') \<and>
         channel p' = 3 \<and> driverId p' = 1 \<and> driver p' = Some 100 \<and>
         device p' = Some (100, 0) \<and> deviceId p' = 0 \<and> isSubscribed Input 9 w'' 100 0)
   \<and> (\<exists>p' w''. roundTrip exUtf8 9 (exBound 0, exWorldWith 0 []) (exFresh, exWorld) = Some (p', w'') \<and>
         channel p' = 3 \<and> driverId p' = 1 \<and> driver p' = Some 100 \<and>
         device p' = None \<and> deviceId p' = - 1)"
proof -
  have q: "kind exFresh = Input \<and> channel exFresh = 0 \<and> driverId exFresh = 2 \<and> driver exFresh = Some 200"
    by (simp add: exFresh_def exInput_def)
  have f: "find (\<lambda>i. (case getInputDeviceName exDriver i of Inr m \<Rightarrow> m | Inl e \<Rightarrow> []) = ''Keys'')
             [0, 1, 2] = Some 0"
    by (simp add: exDriver_def)
  from roundTrip_restores [where ?utf8.0 = exUtf8 and this = 9 and p = "exBound 0"
      and w = "exWorldWith 0 ''Keys''" and q = exFresh and w' = exWorld and dv = "(100, 0)"
      and nm = "''Keys''" and dp = 100 and drv = exDriver and ids = "[0, 1, 2]",
      OF exWorldWith_alive(4) exWorld_alive]
  obtain p' w''
    where rt: "roundTrip exUtf8 9 (exBound 0, exWorldWith 0 ''Keys'') (exFresh, exWorld) = Some (p', w'')"
      and c: "channel p' = 3" and i: "driverId p' = 1" and dr: "driver p' = Some 100"
      and b: "case find (\<lambda>i. (case getInputDeviceName exDriver i of Inr m \<Rightarrow> m | Inl e \<Rightarrow> []) = ''Keys'')
                     [0, 1, 2] of
                None \<Rightarrow> device p' = None \<and> deviceId p' = - 1
              | Some dev \<Rightarrow>
                  (\<forall>d. inputDevices exDriver dev = Inr d \<and> 0 \<le> sint dev \<longrightarrow>
                     device p' = Some (100, dev) \<and> deviceId p' = dev \<and> isSubscribed Input 9 w'' 100 dev)"
    by (auto simp add: exBound_fields exWorldWith_fields exWorld_fields exNames q)
  from b have "device p' = Some (100, 0) \<and> deviceId p' = 0 \<and> isSubscribed Input 9 w'' 100 0"
    unfolding f by (simp add: exWorld_fields)
  with rt c i dr
  have 1: "\<exists>p' w''. roundTrip exUtf8 9 (exBound 0, exWorldWith 0 ''Keys'') (exFresh, exWorld) = Some (p', w'') \<and>
         channel p' = 3 \<and> driverId p' = 1 \<and> driver p' = Some 100 \<and>
         device p' = Some (100, 0) \<and> deviceId p' = 0 \<and> isSubscribed Input 9 w'' 100 0"
    by blast
  from roundTrip_restores [where ?utf8.0 = exUtf8 and this = 9 and p = "exBound 0"
      and w = "exWorldWith 0 []" and q = exFresh and w' = exWorld and dv = "(100, 0)"
      and nm = "[]", OF exWorldWith_alive(4) exWorld_alive]
  have 2: "\<exists>p' w''. roundTrip exUtf8 9 (exBound 0, exWorldWith 0 []) (exFresh, exWorld) = Some (p', w'') \<and>
         channel p' = 3 \<and> driverId p' = 1 \<and> driver p' = Some 100 \<and>
         device p' = None \<and> deviceId p' = - 1"
    by (auto simp add: exBound_fields exWorldWith_fields exWorld_fields)
  from exWorldWith_alive(4) [of 0 "''Keys''"] exWorldWith_alive(4) [of 0 "[]"] exWorld_alive q
    exBound_fields [of 0] exWorldWith_fields(6) [of 0 "''Keys''"] exWorldWith_fields(6) [of 0 "[]"] 1 2
  show ?thesis by simp
qed

text \<open>
  C6 as stated fails where two enumerated devices carry one name: the port bound to
  device 2, "Pad", which the driver still enumerates under that name, saved and loaded
  in one and the same state, comes back bound to device 1, the first "Pad" of the
  enumeration.
\<close>

theorem roundTrip_duplicate_name_counterexample:
  "device (exBound 2) = Some (100, 2) \<and> deviceId (exBound 2) = 2
   \<and> Device_getName Input (100, 2) (exWorldWith 2 ''Pad'') = Some ''Pad''
   \<and> getInputDeviceIds (exDriverWith 2 ''Pad'') = Inr [0, 1, 2]
   \<and> getInputDeviceName (exDriverWith 2 ''Pad'') 2 = Inr ''Pad''
   \<and> map_option (\<lambda>s. (device (fst s), deviceId (fst s)))
       (roundTrip exUtf8 9 (exBound 2, exWorldWith 2 ''Pad'') (exBound 2, exWorldWith 2 ''Pad''))
       = Some (Some (100, 1), 1)"
proof -
  have f: "find (\<lambda>i. (case getInputDeviceName (exDriverWith 2 ''Pad'') i of Inr m \<Rightarrow> m | Inl e \<Rightarrow> []) = ''Pad'')
             [0, 1, 2] = Some 1"
    by (simp add: exWorldWith_fields exDriver_def)
  have d1: "inputDevices (exDriverWith 2 ''Pad'') 1 = Inr \<lparr>inName = ''Pad'', inSubscribed = {||}\<rparr>"
    by (simp add: exDriverWith_def exDriver_def)
  have sn: "savedName exUtf8 (exBound 2, exWorldWith 2 ''Pad'') = Some ''Pad''"
    by (simp add: savedName_def exBound_fields exWorldWith_fields exNames)
  have g: "boundDriver (exWorldWith 2 ''Pad'') (driverId (exBound 2)) = Some 100"
    by (simp add: boundDriver_def exBound_fields exWorldWith_fields)
  note al = exWorldWith_alive [of 2 "''Pad''"] and bf = exBound_fields [of 2]
    and wf = exWorldWith_fields [of 2 "''Pad''"]
  from roundTrip_Input [OF al bf(1) sn g wf(2) wf(4), of 9] d1
  have "map_option (\<lambda>s. (device (fst s), deviceId (fst s)))
       (roundTrip exUtf8 9 (exBound 2, exWorldWith 2 ''Pad'') (exBound 2, exWorldWith 2 ''Pad''))
       = Some (Some (100, 1), 1)"
    unfolding f by auto
  moreover have "getInputDeviceName (exDriverWith 2 ''Pad'') 2 = Inr ''Pad''"
    by (simp add: exWorldWith_fields exDriver_def)
  ultimately show ?thesis
    by (simp add: exBound_fields exWorldWith_fields)
qed

text \<open>
  An output port never gets its device back: \<open>Output::getDeviceName\<close> answers the empty
  string for every id, which no saved name equals.
\<close>

lemma roundTrip_Output_unbound:
  "device exOutput = Some (100, 0)
   \<and> map_option (\<lambda>s. (device (fst s), deviceId (fst s), channel (fst s), driverId (fst s)))
        (roundTrip exUtf8 9 (exOutput, exWorld) (exOutput, exWorld)) = Some (None, - 1, 5, 1)"
  by (simp add: roundTrip_def Port_toJson_def Port_fromJson_def Device_getName_def
        Port_setDriverId_def Port_setDeviceId_def Output_setDeviceId_def destroyDevice_def
        createDevice_def unsubscribeOutput_def OutputDevice_unsubscribe_def getDriver_def
        Port_getDeviceIds_def Output_getDeviceIds_def Port_getDeviceName_def
        Output_getDeviceName_def json_integer_value_def json_string_value_def
        json_object_set_new_def json_integer_def json_string_def c_str_def exUtf8_def Let_def
        exOutput_def exWorld_def exDriver_def int_through_json)

end
